theory Spec2Isabelle
  imports Complex_Main
begin

section \<open>Python values and errors\<close>

text \<open>
  The training harness \<^verbatim>\<open>trainer.py\<close> is embedded function by function. Python floats are
  idealised as the reals (no rounding, no NaN); Python integers are \<^typ>\<open>int\<close>. Every
  exception that the modelled code can raise is a value of \<open>py_error\<close>, and a function that
  can raise returns \<open>py_error + 'a\<close> with the error on the left.
\<close>

datatype py_error =
    KeyError
  | ValueError
  | ZeroDivisionError
  | RuntimeError
  | FileNotFoundError
  | UnpicklingError

section \<open>AverageMeter\<close>

text \<open>
  \<^verbatim>\<open>class AverageMeter\<close> (lines 310 to 325): the four attributes \<^verbatim>\<open>val\<close>, \<^verbatim>\<open>avg\<close>, \<^verbatim>\<open>sum\<close>
  and \<^verbatim>\<open>count\<close>. The weight \<^verbatim>\<open>n\<close> of an update is a Python integer.
\<close>

record AverageMeter =
  am_val :: real
  am_avg :: real
  am_sum :: real
  am_count :: int

definition reset :: AverageMeter where
  "reset = \<lparr>am_val = 0, am_avg = 0, am_sum = 0, am_count = 0\<rparr>"

text \<open>
  \<^verbatim>\<open>update(val, n)\<close>: the division \<^verbatim>\<open>self.sum / self.count\<close> raises
  \<^verbatim>\<open>ZeroDivisionError\<close> when the new count is zero.
\<close>

definition update :: "AverageMeter \<Rightarrow> real \<Rightarrow> int \<Rightarrow> py_error + AverageMeter" where
  "update m v n =
     (let s = am_sum m + v * of_int n;
          c = am_count m + n
      in if c = 0 then Inl ZeroDivisionError
         else Inr \<lparr>am_val = v, am_avg = s / of_int c, am_sum = s, am_count = c\<rparr>)"

text \<open>A sequence of \<^verbatim>\<open>update\<close> calls on one meter; the first exception ends it.\<close>

fun updates :: "AverageMeter \<Rightarrow> (real \<times> int) list \<Rightarrow> py_error + AverageMeter" where
  "updates m [] = Inr m"
| "updates m ((v, n) # xs) =
     (case update m v n of Inl e \<Rightarrow> Inl e | Inr m' \<Rightarrow> updates m' xs)"

text \<open>The weighted sum and the total weight of a sequence of observations.\<close>

definition weighted_sum :: "(real \<times> int) list \<Rightarrow> real" where
  "weighted_sum xs = (\<Sum>(v, n)\<leftarrow>xs. v * of_int n)"

definition total_weight :: "(real \<times> int) list \<Rightarrow> int" where
  "total_weight xs = (\<Sum>(v, n)\<leftarrow>xs. n)"

definition positive_weights :: "(real \<times> int) list \<Rightarrow> bool" where
  "positive_weights xs = list_all (\<lambda>(v, n). 0 < n) xs"

section \<open>accuracy\<close>

text \<open>
  \<^verbatim>\<open>accuracy(output, target, topk)\<close> (lines 328 to 341). A two-dimensional tensor is the
  list of its rows; \<^verbatim>\<open>output\<close> has one row of class scores per example, \<^verbatim>\<open>target\<close> one
  class index per example (a natural number), and \<^verbatim>\<open>topk\<close> is a tuple of Python integers.
\<close>

text \<open>\<^verbatim>\<open>max(topk)\<close>: raises \<^verbatim>\<open>ValueError\<close> on an empty tuple.\<close>

definition py_max :: "int list \<Rightarrow> py_error + int" where
  "py_max xs = (case xs of [] \<Rightarrow> Inl ValueError
                | x # ys \<Rightarrow> Inr (fold (\<lambda>y m. if m < y then y else m) ys x))"

text \<open>
  \<^verbatim>\<open>Tensor.topk(k, 1, True, True)\<close> (line 333) is a function of the library, and which of
  several equal scores it returns, and in which order, is not determined by its
  documentation. It is therefore a parameter \<open>tk\<close> of the model: \<open>tk k row\<close> is the list of
  indices returned for one row. What the library does guarantee is the contract
  \<open>is_topk\<close>: for \<open>k\<close> at most the length of the row, \<open>k\<close> distinct indices of the row, in
  order of decreasing score, such that no score outside them is greater than a score
  among them.
\<close>

definition is_topk :: "(nat \<Rightarrow> real list \<Rightarrow> nat list) \<Rightarrow> bool" where
  "is_topk tk =
     (\<forall>k row. k \<le> length row \<longrightarrow>
        length (tk k row) = k \<and> distinct (tk k row) \<and>
        (\<forall>i\<in>set (tk k row). i < length row) \<and>
        sorted_wrt (\<lambda>x y. y \<le> x) (map (\<lambda>i. row ! i) (tk k row)) \<and>
        (\<forall>i\<in>set (tk k row). \<forall>j<length row. j \<notin> set (tk k row) \<longrightarrow> row ! j \<le> row ! i))"

text \<open>
  One function that meets the contract, for concrete runs: a stable sort of the indices
  by decreasing score, so that of equal scores the lower index comes first. The library
  may choose differently among equal scores.
\<close>

definition topk_by_sort :: "nat \<Rightarrow> real list \<Rightarrow> nat list" where
  "topk_by_sort k row = take k (sort_key (\<lambda>i. - (row ! i)) [0..<length row])"

text \<open>On the whole tensor: \<^verbatim>\<open>RuntimeError\<close> when \<open>k\<close> is negative or exceeds the row length.\<close>

definition tensor_topk ::
  "(nat \<Rightarrow> real list \<Rightarrow> nat list) \<Rightarrow> int \<Rightarrow> real list list \<Rightarrow> py_error + nat list list" where
  "tensor_topk tk k output =
     (if k < 0 \<or> (\<exists>row\<in>set output. int (length row) < k) then Inl RuntimeError
      else Inr (map (tk (nat k)) output))"

text \<open>\<^verbatim>\<open>pred.t()\<close>: the transpose of a tensor with \<open>n\<close> columns.\<close>

definition t2d :: "nat \<Rightarrow> 'a list list \<Rightarrow> 'a list list" where
  "t2d n rows = map (\<lambda>j. map (\<lambda>r. r ! j) rows) [0..<n]"

text \<open>
  \<^verbatim>\<open>target.view(1, -1).expand_as(pred)\<close>: one row of targets, repeated along the first
  dimension. The second dimension must agree with the batch of \<^verbatim>\<open>pred\<close>, or be 1 (then the
  single target is broadcast).
\<close>

definition expand_as :: "nat list \<Rightarrow> nat \<Rightarrow> py_error + nat list" where
  "expand_as target b =
     (if length target = b then Inr target
      else if length target = 1 then Inr (replicate b (hd target))
      else Inl RuntimeError)"

text \<open>\<^verbatim>\<open>xs[:k]\<close>: a negative \<open>k\<close> counts from the end.\<close>

definition slice_to :: "int \<Rightarrow> 'a list \<Rightarrow> 'a list" where
  "slice_to k xs = (if 0 \<le> k then take (nat k) xs else take (length xs - nat (- k)) xs)"

text \<open>
  \<^verbatim>\<open>correct[:k].view(-1)\<close> (line 339). \<^verbatim>\<open>correct\<close> is the result of comparing the transposed
  \<^verbatim>\<open>pred\<close>, and in current releases of the library it has the layout of that tensor in
  memory: the entries of one column (one example) lie next to each other, not the entries
  of one row. \<^verbatim>\<open>view\<close> never copies, so the rows of the
  slice can be seen as one dimension only when there is at most one row, or the rows have
  at most one entry; otherwise it raises \<^verbatim>\<open>RuntimeError\<close> (view size is not compatible with
  input tensor's size and stride). \<open>b\<close> is the number of entries of a row, the batch of
  \<^verbatim>\<open>output\<close>.
\<close>

definition view_flat :: "nat \<Rightarrow> 'a list list \<Rightarrow> py_error + 'a list" where
  "view_flat b rows =
     (if 2 \<le> length rows \<and> 2 \<le> b then Inl RuntimeError else Inr (concat rows))"

text \<open>\<^verbatim>\<open>.float().sum(0)\<close>: the number of true entries.\<close>

definition count_true :: "bool list \<Rightarrow> nat" where
  "count_true flat = length (filter (\<lambda>x. x) flat)"

text \<open>
  The loop of lines 338 to 340 over the requested values of \<open>k\<close>, in order; an exception
  ends it. \<^verbatim>\<open>100.0 / batch_size\<close> raises \<^verbatim>\<open>ZeroDivisionError\<close> for an empty \<^verbatim>\<open>target\<close>.
\<close>

fun accuracy_loop :: "nat \<Rightarrow> nat \<Rightarrow> bool list list \<Rightarrow> int list \<Rightarrow> py_error + real list" where
  "accuracy_loop b batch_size correct [] = Inr []"
| "accuracy_loop b batch_size correct (k # ks) =
     (case view_flat b (slice_to k correct) of Inl e \<Rightarrow> Inl e
      | Inr flat \<Rightarrow>
          if batch_size = 0 then Inl ZeroDivisionError
          else (case accuracy_loop b batch_size correct ks of Inl e \<Rightarrow> Inl e
                | Inr res \<Rightarrow> Inr (real (count_true flat) * (100 / real batch_size) # res)))"

definition accuracy ::
  "(nat \<Rightarrow> real list \<Rightarrow> nat list) \<Rightarrow> real list list \<Rightarrow> nat list \<Rightarrow> int list
   \<Rightarrow> py_error + real list" where
  "accuracy tk output target topk =
     (case py_max topk of Inl e \<Rightarrow> Inl e
      | Inr maxk \<Rightarrow>
     (case tensor_topk tk maxk output of Inl e \<Rightarrow> Inl e
      | Inr pred0 \<Rightarrow>
     (case expand_as target (length output) of Inl e \<Rightarrow> Inl e
      | Inr tgt \<Rightarrow>
        let batch_size = length target;
            pred = t2d (nat maxk) pred0;
            correct = map (\<lambda>prow. map2 (\<lambda>p t. p = t) prow tgt) pred
        in accuracy_loop (length output) batch_size correct topk)))"

text \<open>
  The reading of the specification: an example is correct within the top \<open>k\<close> when its true
  class is among the first \<open>k\<close> of the \<open>m\<close> indices returned for its row (\<open>m\<close> is the
  greatest requested \<open>k\<close>). By the contract these first \<open>k\<close> indices are indices of \<open>k\<close>
  highest scores of the row.
\<close>

definition correct_within ::
  "(nat \<Rightarrow> real list \<Rightarrow> nat list) \<Rightarrow> nat \<Rightarrow> nat \<Rightarrow> real list list \<Rightarrow> nat list \<Rightarrow> nat" where
  "correct_within tk m k output target =
     length (filter (\<lambda>(row, t). t \<in> set (take k (tk m row))) (zip output target))"

text \<open>The number of rows that \<^verbatim>\<open>correct[:k]\<close> keeps of a tensor with \<open>m\<close> rows.\<close>

definition slice_len :: "int \<Rightarrow> nat \<Rightarrow> nat" where
  "slice_len k m = (if 0 \<le> k then nat k else m - nat (- k))"

section \<open>Files, checkpoints and paths\<close>

text \<open>
  The dictionary that \<^verbatim>\<open>torch.save\<close> writes (lines 164 to 168 and 173 to 177) has the three
  keys \<^verbatim>\<open>epoch\<close>, \<^verbatim>\<open>state_dict\<close> and \<^verbatim>\<open>best_prec1\<close>. The model parameters are opaque,
  of a type \<open>'m\<close>.
\<close>

record 'm checkpoint =
  ck_epoch :: int
  ck_state_dict :: 'm
  ck_best_prec1 :: real

text \<open>
  The file system is a map from paths to nodes. Serialisation is not modelled: a
  checkpoint file holds the dictionary itself. Writing is taken to succeed; failures of
  the disk are outside the model.
\<close>

datatype 'm node = Directory | Checkpoint_file "'m checkpoint" | Other_file

type_synonym 'm filesystem = "string \<Rightarrow> 'm node option"

definition exists_path :: "'m filesystem \<Rightarrow> string \<Rightarrow> bool" where
  "exists_path fs p = (fs p \<noteq> None)"

definition isfile :: "'m filesystem \<Rightarrow> string \<Rightarrow> bool" where
  "isfile fs p = (case fs p of None \<Rightarrow> False | Some Directory \<Rightarrow> False | Some _ \<Rightarrow> True)"

definition torch_load :: "'m filesystem \<Rightarrow> string \<Rightarrow> py_error + 'm checkpoint" where
  "torch_load fs p =
     (case fs p of
        Some (Checkpoint_file ck) \<Rightarrow> Inr ck
      | Some Other_file \<Rightarrow> Inl UnpicklingError
      | _ \<Rightarrow> Inl FileNotFoundError)"

definition torch_save :: "'m checkpoint \<Rightarrow> string \<Rightarrow> 'm filesystem \<Rightarrow> 'm filesystem" where
  "torch_save ck p fs = fs(p \<mapsto> Checkpoint_file ck)"

text \<open>\<^verbatim>\<open>os.path.join\<close> of two components (POSIX).\<close>

definition os_path_join :: "string \<Rightarrow> string \<Rightarrow> string" where
  "os_path_join a b =
     (if b \<noteq> [] \<and> hd b = CHR ''/'' then b
      else if a = [] \<or> last a = CHR ''/'' then a @ b
      else a @ ''/'' @ b)"

text \<open>The decimal numeral of an integer, as an f-string prints it.\<close>

function str_nat :: "nat \<Rightarrow> string" where
  "str_nat n =
     (if n < 10 then [''0123456789'' ! n]
      else str_nat (n div 10) @ [''0123456789'' ! (n mod 10)])"
  by pat_completeness auto
termination
  by (relation "measure (\<lambda>n. n)") auto

declare str_nat.simps [simp del]

definition str_int :: "int \<Rightarrow> string" where
  "str_int i = (if i < 0 then CHR ''-'' # str_nat (nat (- i)) else str_nat (nat i))"

definition best_path :: "string \<Rightarrow> string" where
  "best_path dir = os_path_join dir ''best_checkpoint.th''"

definition periodic_path :: "string \<Rightarrow> int \<Rightarrow> string" where
  "periodic_path dir epoch = os_path_join dir (''checkpoint_'' @ str_int (epoch + 1) @ ''.th'')"

section \<open>Optimizer and learning-rate scheduler\<close>

text \<open>
  \<^verbatim>\<open>torch.optim.SGD\<close> is created with one parameter group (line 120). Of the group only
  the entries \<^verbatim>\<open>lr\<close> and \<^verbatim>\<open>initial_lr\<close> matter to the controller; a new optimizer has no
  \<^verbatim>\<open>initial_lr\<close>. The constructor rejects a negative learning rate, momentum or weight decay.
\<close>

record param_group =
  pg_lr :: real
  pg_initial_lr :: "real option"

definition SGD :: "real \<Rightarrow> real \<Rightarrow> real \<Rightarrow> py_error + param_group" where
  "SGD l m w =
     (if l < 0 \<or> m < 0 \<or> w < 0 then Inl ValueError
      else Inr \<lparr>pg_lr = l, pg_initial_lr = None\<rparr>)"

text \<open>
  \<^verbatim>\<open>torch.optim.lr_scheduler.MultiStepLR\<close>, as in the releases of the library that provide
  \<^verbatim>\<open>torch.cuda.amp\<close> (which lines 118 and 211 use). The library keeps the milestones as a
  counter. \<^verbatim>\<open>step()\<close> without an argument, as line 152 calls it, adds 1 to \<^verbatim>\<open>last_epoch\<close> and
  sets the rate of the group to the result of \<^verbatim>\<open>get_lr()\<close>, which is computed from the rate the
  optimizer holds at that moment: \<^verbatim>\<open>group['lr']\<close> when \<^verbatim>\<open>last_epoch\<close> is not among the
  milestones, and \<^verbatim>\<open>group['lr'] * gamma ** milestones[last_epoch]\<close> when it is. The rate
  recorded at construction (\<^verbatim>\<open>base_lrs\<close>) plays no part in it.
\<close>

record scheduler =
  milestones :: "int list"
  gamma :: real
  base_lr :: real
  last_epoch :: int

definition scheduler_step :: "scheduler \<Rightarrow> param_group \<Rightarrow> scheduler \<times> param_group" where
  "scheduler_step s g =
     (let e = last_epoch s + 1;
          v = (if e \<in> set (milestones s)
               then pg_lr g * gamma s ^ count_list (milestones s) e
               else pg_lr g)
      in (s\<lparr>last_epoch := e\<rparr>, g\<lparr>pg_lr := v\<rparr>))"

text \<open>
  The constructor. With \<^verbatim>\<open>last_epoch == -1\<close> it records the current rate as \<^verbatim>\<open>initial_lr\<close>
  of the group (\<^verbatim>\<open>group.setdefault('initial_lr', group['lr'])\<close>); with any other \<^verbatim>\<open>last_epoch\<close>
  it requires the group to hold \<^verbatim>\<open>initial_lr\<close> already and raises \<^verbatim>\<open>KeyError\<close> otherwise
  (param 'initial_lr' is not specified in param_groups[0] when resuming an optimizer). It
  ends with one call of \<^verbatim>\<open>step()\<close>. \<^verbatim>\<open>gamma\<close> has its default 0.1.
\<close>

definition MultiStepLR :: "param_group \<Rightarrow> int list \<Rightarrow> int \<Rightarrow> py_error + scheduler \<times> param_group" where
  "MultiStepLR g ms le =
     (if le = - 1 then
        (let b = (case pg_initial_lr g of None \<Rightarrow> pg_lr g | Some i \<Rightarrow> i)
         in Inr (scheduler_step \<lparr>milestones = ms, gamma = 1 / 10, base_lr = b, last_epoch = le\<rparr>
                   (g\<lparr>pg_initial_lr := Some b\<rparr>)))
      else
        (case pg_initial_lr g of
           None \<Rightarrow> Inl KeyError
         | Some b \<Rightarrow>
             Inr (scheduler_step \<lparr>milestones = ms, gamma = 1 / 10, base_lr = b, last_epoch = le\<rparr> g)))"

section \<open>The training controller\<close>

text \<open>
  The command-line arguments the controller reads (lines 24 to 56), and the collaborators
  it calls: the model constructor, \<^verbatim>\<open>train\<close> (which returns the parameters after one epoch
  at the given epoch index and learning rate) and \<^verbatim>\<open>validate\<close> (which returns \<^verbatim>\<open>top1.avg\<close>;
  its epoch argument is \<^verbatim>\<open>None\<close> in evaluate-only mode). The collaborators are arbitrary
  functions: nothing is assumed of the network, the data or the loss.
\<close>

record args =
  arch :: string
  epochs :: int
  resume :: "string option"
  start_epoch :: int
  lr :: real
  momentum :: real
  weight_decay :: real
  evaluate :: bool
  save_dir :: string
  save_every :: int

record 'm collaborators =
  new_model :: "string \<Rightarrow> 'm"
  train :: "int \<Rightarrow> real \<Rightarrow> 'm \<Rightarrow> 'm"
  validate :: "int option \<Rightarrow> 'm \<Rightarrow> real"

text \<open>
  What a run leaves behind, in order: the three messages of the resume block (lines 80, 85
  and 88), the learning rate sent to the metric sink at the start of each epoch
  (line 147), every \<^verbatim>\<open>torch.save\<close> with the dictionary and the path, and the message of
  line 172.
\<close>

datatype 'm event =
    Loading string
  | Loaded string int
  | No_checkpoint string
  | Learning_rate real int
  | Saved "'m checkpoint" string
  | Saving int

record 'm state =
  model :: 'm
  best_prec1 :: real
  optimizer :: param_group
  lr_scheduler :: scheduler
  files :: "'m filesystem"
  events :: "'m event list"

text \<open>Lines 71 and 72: \<^verbatim>\<open>os.makedirs\<close> of an empty path raises.\<close>

definition ensure_save_dir :: "'m filesystem \<Rightarrow> string \<Rightarrow> py_error + 'm filesystem" where
  "ensure_save_dir fs d =
     (if exists_path fs d then Inr fs
      else if d = [] then Inl FileNotFoundError
      else Inr (fs(d \<mapsto> Directory)))"

text \<open>
  Lines 78 to 88. \<^verbatim>\<open>if args.resume:\<close> is false for \<^verbatim>\<open>None\<close> and for the empty string.
  The result is the arguments (with \<^verbatim>\<open>start_epoch\<close> possibly replaced), the best metric,
  the model parameters and the messages printed.
\<close>

definition load_resume ::
  "args \<Rightarrow> 'm filesystem \<Rightarrow> real \<Rightarrow> 'm \<Rightarrow> py_error + (args \<times> real \<times> 'm \<times> 'm event list)" where
  "load_resume a fs best m =
     (case resume a of
        None \<Rightarrow> Inr (a, best, m, [])
      | Some p \<Rightarrow>
          if p = [] then Inr (a, best, m, [])
          else if isfile fs p then
            (case torch_load fs p of
               Inl e \<Rightarrow> Inl e
             | Inr ck \<Rightarrow>
                 Inr (a\<lparr>start_epoch := ck_epoch ck\<rparr>, ck_best_prec1 ck, ck_state_dict ck,
                      [Loading p, Loaded p (ck_epoch ck)]))
          else Inr (a, best, m, [No_checkpoint p]))"

text \<open>Lines 127 to 131: the warm-up override of the learning rate.\<close>

definition warm_up :: "args \<Rightarrow> param_group \<Rightarrow> param_group" where
  "warm_up a g =
     (if arch a \<in> set [''resnet1202'', ''resnet110''] then g\<lparr>pg_lr := lr a * (1 / 10)\<rparr> else g)"

text \<open>\<^verbatim>\<open>max(a, b)\<close> of two numbers: the first argument unless the second is greater.\<close>

definition py_max2 :: "real \<Rightarrow> real \<Rightarrow> real" where
  "py_max2 a b = (if a < b then b else a)"

text \<open>
  The body of the epoch loop (lines 143 to 182), timing and console output left out.
  \<^verbatim>\<open>(epoch + 1) % args.save_every\<close> is evaluated only when \<^verbatim>\<open>epoch > 0\<close>, and raises
  \<^verbatim>\<open>ZeroDivisionError\<close> when \<^verbatim>\<open>save_every\<close> is zero.
\<close>

definition epoch_body :: "'m collaborators \<Rightarrow> args \<Rightarrow> int \<Rightarrow> 'm state \<Rightarrow> py_error + 'm state" where
  "epoch_body E a epoch s =
     (let cur = pg_lr (optimizer s);
          m1 = train E epoch cur (model s);
          (sch, opt) = scheduler_step (lr_scheduler s) (optimizer s);
          prec1 = validate E (Some epoch) m1;
          is_best = best_prec1 s < prec1;
          best = py_max2 prec1 (best_prec1 s);
          ck = \<lparr>ck_epoch = epoch + 1, ck_state_dict = m1, ck_best_prec1 = best\<rparr>;
          s1 = s\<lparr>model := m1, best_prec1 := best, optimizer := opt, lr_scheduler := sch,
                 events := events s @ [Learning_rate cur epoch]\<rparr>;
          s2 = (if is_best
                then s1\<lparr>files := torch_save ck (best_path (save_dir a)) (files s1),
                        events := events s1 @ [Saved ck (best_path (save_dir a))]\<rparr>
                else s1)
      in if 0 < epoch then
           (if save_every a = 0 then Inl ZeroDivisionError
            else if (epoch + 1) mod save_every a = 0 then
              Inr (s2\<lparr>files := torch_save ck (periodic_path (save_dir a) epoch) (files s2),
                       events := events s2 @ [Saving epoch, Saved ck (periodic_path (save_dir a) epoch)]\<rparr>)
            else Inr s2)
         else Inr s2)"

text \<open>\<^verbatim>\<open>range(a, b)\<close>, and the loop \<^verbatim>\<open>for epoch in range(...)\<close> over its epochs.\<close>

definition py_range :: "int \<Rightarrow> int \<Rightarrow> int list" where
  "py_range a b = [a..b - 1]"

fun run_epochs :: "'m collaborators \<Rightarrow> args \<Rightarrow> int list \<Rightarrow> 'm state \<Rightarrow> py_error + 'm state" where
  "run_epochs E a [] s = Inr s"
| "run_epochs E a (epoch # es) s =
     (case epoch_body E a epoch s of Inl e \<Rightarrow> Inl e | Inr s' \<Rightarrow> run_epochs E a es s')"

text \<open>
  \<^verbatim>\<open>main\<close> (lines 61 to 182) on a given file system. The module-level \<^verbatim>\<open>best_prec1\<close> is 0
  when \<^verbatim>\<open>main\<close> starts (line 58). Data loading, the device and the console are left out.
\<close>

definition main :: "'m collaborators \<Rightarrow> args \<Rightarrow> 'm filesystem \<Rightarrow> py_error + 'm state" where
  "main E a0 fs0 =
     (case ensure_save_dir fs0 (save_dir a0) of Inl e \<Rightarrow> Inl e
      | Inr fs \<Rightarrow>
     (case load_resume a0 fs 0 (new_model E (arch a0)) of Inl e \<Rightarrow> Inl e
      | Inr (a, best, m, ev) \<Rightarrow>
     (case SGD (lr a) (momentum a) (weight_decay a) of Inl e \<Rightarrow> Inl e
      | Inr g0 \<Rightarrow>
     (case MultiStepLR g0 [100, 150] (start_epoch a - 1) of Inl e \<Rightarrow> Inl e
      | Inr (sch, g1) \<Rightarrow>
        let s = \<lparr>model = m, best_prec1 = best, optimizer = warm_up a g1, lr_scheduler = sch,
                 files = fs, events = ev\<rparr>
        in if evaluate a then Inr s
           else run_epochs E a (py_range (start_epoch a) (epochs a)) s))))"

text \<open>The defaults of the argument parser (lines 24 to 56).\<close>

definition default_args :: args where
  "default_args =
     \<lparr>arch = ''resnet32'', epochs = 200, resume = None, start_epoch = 0, lr = 1 / 10,
      momentum = 9 / 10, weight_decay = 1 / 10000, evaluate = False,
      save_dir = ''save_temp'', save_every = 10\<rparr>"

section \<open>Observing a run\<close>

text \<open>
  The checkpoints written to the best path of a directory, and those written to a periodic
  path (the path of line 177 for the epoch the dictionary was taken in), in the order of
  the writes.
\<close>

definition best_saves :: "string \<Rightarrow> 'm event list \<Rightarrow> 'm checkpoint list" where
  "best_saves dir evs =
     concat (map (\<lambda>ev. case ev of Saved ck p \<Rightarrow> if p = best_path dir then [ck] else []
                          | _ \<Rightarrow> []) evs)"

definition periodic_saves :: "string \<Rightarrow> 'm event list \<Rightarrow> 'm checkpoint list" where
  "periodic_saves dir evs =
     concat (map (\<lambda>ev. case ev of
                          Saved ck p \<Rightarrow> if p = periodic_path dir (ck_epoch ck - 1) then [ck] else []
                        | _ \<Rightarrow> []) evs)"

text \<open>The learning rates reported to the metric sink, with their epochs.\<close>

definition learning_rates :: "'m event list \<Rightarrow> (int \<times> real) list" where
  "learning_rates evs =
     concat (map (\<lambda>ev. case ev of Learning_rate l e \<Rightarrow> [(e, l)] | _ \<Rightarrow> []) evs)"

text \<open>The value \<^verbatim>\<open>prec1\<close> of line 156 in each epoch of the loop, in order.\<close>

fun validation_metrics :: "'m collaborators \<Rightarrow> args \<Rightarrow> int list \<Rightarrow> 'm state \<Rightarrow> real list" where
  "validation_metrics E a [] s = []"
| "validation_metrics E a (epoch # es) s =
     validate E (Some epoch) (train E epoch (pg_lr (optimizer s)) (model s)) #
     (case epoch_body E a epoch s of Inl e \<Rightarrow> [] | Inr s' \<Rightarrow> validation_metrics E a es s')"

text \<open>
  Collaborators for concrete runs: the model is the number of epochs it was trained for,
  and validation in epoch \<open>i\<close> yields the \<open>i\<close>-th entry of a given list (0 outside it).
\<close>

definition replay :: "real list \<Rightarrow> nat collaborators" where
  "replay ms =
     \<lparr>new_model = (\<lambda>name. 0),
      train = (\<lambda>epoch l m. Suc m),
      validate = (\<lambda>epoch m. case epoch of None \<Rightarrow> 0
                   | Some i \<Rightarrow> if 0 \<le> i \<and> nat i < length ms then ms ! nat i else 0)\<rparr>"

text \<open>The events of a finished run; an exception leaves none to inspect.\<close>

definition events_of :: "py_error + 'm state \<Rightarrow> 'm event list" where
  "events_of r = (case r of Inl e \<Rightarrow> [] | Inr s \<Rightarrow> events s)"

text \<open>
  What one pass through the loop body computes from the state it starts in: the validation
  metric, the dictionary it would save, and the events it appends.
\<close>

definition epoch_prec1 :: "'m collaborators \<Rightarrow> int \<Rightarrow> 'm state \<Rightarrow> real" where
  "epoch_prec1 E epoch s =
     validate E (Some epoch) (train E epoch (pg_lr (optimizer s)) (model s))"

definition epoch_ck :: "'m collaborators \<Rightarrow> int \<Rightarrow> 'm state \<Rightarrow> 'm checkpoint" where
  "epoch_ck E epoch s =
     \<lparr>ck_epoch = epoch + 1,
      ck_state_dict = train E epoch (pg_lr (optimizer s)) (model s),
      ck_best_prec1 = py_max2 (epoch_prec1 E epoch s) (best_prec1 s)\<rparr>"

definition epoch_events :: "'m collaborators \<Rightarrow> args \<Rightarrow> int \<Rightarrow> 'm state \<Rightarrow> 'm event list" where
  "epoch_events E a epoch s =
     [Learning_rate (pg_lr (optimizer s)) epoch] @
     (if best_prec1 s < epoch_prec1 E epoch s
      then [Saved (epoch_ck E epoch s) (best_path (save_dir a))] else []) @
     (if 0 < epoch \<and> (epoch + 1) mod save_every a = 0
      then [Saving epoch, Saved (epoch_ck E epoch s) (periodic_path (save_dir a) epoch)]
      else [])"

text \<open>
  A strict improvement: the \<open>i\<close>-th metric of a sequence is greater than the best metric
  before the sequence and than every metric before it in the sequence.
\<close>

definition improving :: "real \<Rightarrow> real list \<Rightarrow> nat \<Rightarrow> bool" where
  "improving b ms i = (Max (set (b # take i ms)) < ms ! i)"

text \<open>
  The state in which a run without a resumed checkpoint enters the epoch loop: a new
  model, the best metric 0, the optimizer after the scheduler's construction and the
  warm-up override, and no events yet.
\<close>

definition fresh_state :: "'m collaborators \<Rightarrow> args \<Rightarrow> 'm filesystem \<Rightarrow> 'm state" where
  "fresh_state E a fs =
     \<lparr>model = new_model E (arch a), best_prec1 = 0,
      optimizer = warm_up a \<lparr>pg_lr = lr a, pg_initial_lr = Some (lr a)\<rparr>,
      lr_scheduler = \<lparr>milestones = [100, 150], gamma = 1 / 10, base_lr = lr a, last_epoch = 0\<rparr>,
      files = (if exists_path fs (save_dir a) then fs else fs(save_dir a \<mapsto> Directory)),
      events = []\<rparr>"

text \<open>
  The arguments of a run that starts from scratch: no resume path, epoch 0 first, training
  rather than evaluation, and values the optimizer and the directory creation accept.
\<close>

definition fresh_args :: "args \<Rightarrow> bool" where
  "fresh_args a =
     (resume a = None \<and> start_epoch a = 0 \<and> \<not> evaluate a \<and> 0 \<le> lr a \<and> 0 \<le> momentum a
      \<and> 0 \<le> weight_decay a \<and> save_dir a \<noteq> [])"

text \<open>
  The factor the specification gives the schedule at an epoch: 1 before epoch 100, one
  tenth from 100 to 149, one hundredth from 150 on.
\<close>

definition milestone_factor :: "int \<Rightarrow> real" where
  "milestone_factor epoch = (if epoch < 100 then 1 else if epoch < 150 then 1 / 10 else 1 / 100)"

section \<open>AverageMeter: the running mean\<close>

lemma updates_from:
  "positive_weights xs \<Longrightarrow> xs \<noteq> [] \<Longrightarrow> 0 \<le> am_count m \<Longrightarrow>
   updates m xs = Inr \<lparr>am_val = fst (last xs),
      am_avg = (am_sum m + weighted_sum xs) / of_int (am_count m + total_weight xs),
      am_sum = am_sum m + weighted_sum xs,
      am_count = am_count m + total_weight xs\<rparr>"
proof (induction xs arbitrary: m)
  case Nil
  then show ?case by simp
next
  case (Cons x xs)
  obtain v n where x: "x = (v, n)" by (cases x)
  from Cons.prems x have n: "0 < n" and pw: "positive_weights xs"
    by (simp_all add: positive_weights_def)
  let ?m = "\<lparr>am_val = v, am_avg = (am_sum m + v * of_int n) / of_int (am_count m + n),
             am_sum = am_sum m + v * of_int n, am_count = am_count m + n\<rparr>"
  from n Cons.prems(3) have c: "am_count m + n \<noteq> 0" by simp
  then have u: "update m v n = Inr ?m" by (simp add: update_def Let_def)
  show ?case
  proof (cases "xs = []")
    case True
    with u x show ?thesis by (simp add: weighted_sum_def total_weight_def)
  next
    case False
    have "0 \<le> am_count ?m" using n Cons.prems(3) by simp
    from Cons.IH [OF pw False this] u x False show ?thesis
      by (simp add: weighted_sum_def total_weight_def add.assoc)
  qed
qed

lemma total_weight_positive:
  "positive_weights xs \<Longrightarrow> xs \<noteq> [] \<Longrightarrow> 0 < total_weight xs"
proof (induction xs)
  case Nil
  then show ?case by simp
next
  case (Cons x xs)
  obtain v n where x: "x = (v, n)" by (cases x)
  from Cons.prems x have n: "0 < n" and pw: "positive_weights xs"
    by (simp_all add: positive_weights_def)
  show ?case
  proof (cases "xs = []")
    case True
    with n x show ?thesis by (simp add: total_weight_def)
  next
    case False
    from Cons.IH [OF pw False] n x show ?thesis by (simp add: total_weight_def)
  qed
qed

text \<open>
  Claim C6, as amended. After \<^verbatim>\<open>reset\<close> and a non-empty sequence of \<^verbatim>\<open>update(v, n)\<close> calls
  whose weights are all positive, no call raises, \<^verbatim>\<open>val\<close> is the last value, \<^verbatim>\<open>sum\<close> the
  weighted sum, \<^verbatim>\<open>count\<close> the total weight (which is positive) and \<^verbatim>\<open>avg\<close> their quotient.
  \<^verbatim>\<open>reset\<close> itself yields the state of four zeros, in which \<^verbatim>\<open>avg\<close> is 0 without any
  division.
\<close>

theorem AverageMeter_running_mean:
  assumes "positive_weights xs" and "xs \<noteq> []"
  shows "updates reset xs =
           Inr \<lparr>am_val = fst (last xs),
                am_avg = weighted_sum xs / of_int (total_weight xs),
                am_sum = weighted_sum xs,
                am_count = total_weight xs\<rparr>
         \<and> 0 < total_weight xs
         \<and> reset = \<lparr>am_val = 0, am_avg = 0, am_sum = 0, am_count = 0\<rparr>
         \<and> updates reset [] = Inr reset"
proof -
  have "0 \<le> am_count reset" by (simp add: reset_def)
  from updates_from [OF assms this] total_weight_positive [OF assms]
  show ?thesis by (simp add: reset_def)
qed

theorem AverageMeter_running_mean_witness:
  "positive_weights [(3, 2), (6, 1)]
   \<and> updates reset [(3, 2), (6, 1)] = Inr \<lparr>am_val = 6, am_avg = 4, am_sum = 12, am_count = 3\<rparr>"
  using AverageMeter_running_mean [of "[(3, 2), (6, 1)]"]
  by (simp add: positive_weights_def weighted_sum_def total_weight_def)

text \<open>
  The claim as stated, for every sequence of calls, fails: an update of weight 0 right
  after \<^verbatim>\<open>reset\<close> divides by the count 0.
\<close>

theorem AverageMeter_zero_weight_counterexample:
  "updates reset [(1, 0)] = Inl ZeroDivisionError"
  by (simp add: reset_def update_def)


section \<open>accuracy: the top-k count\<close>

lemma py_max_Inr: "xs \<noteq> [] \<Longrightarrow> py_max xs = Inr (Max (set xs))"
proof -
  have f: "(\<lambda>y m. if m < y then y else m) = (max :: int \<Rightarrow> int \<Rightarrow> int)"
    by (auto simp: fun_eq_iff max_def)
  show "xs \<noteq> [] \<Longrightarrow> py_max xs = Inr (Max (set xs))"
    by (cases xs) (simp_all add: py_max_def f Max.set_eq_fold del: set_simps)
qed

lemma is_topk_by_sort: "is_topk topk_by_sort"
  unfolding is_topk_def
proof (intro allI impI conjI ballI)
  fix k and row :: "real list"
  assume k: "k \<le> length row"
  let ?f = "\<lambda>i. - (row ! i)"
  let ?ys = "sort_key ?f [0..<length row]"
  show "length (topk_by_sort k row) = k" using k by (simp add: topk_by_sort_def)
  show "distinct (topk_by_sort k row)" by (simp add: topk_by_sort_def distinct_take)
  show "i < length row" if "i \<in> set (topk_by_sort k row)" for i
  proof -
    from that have "i \<in> set ?ys" unfolding topk_by_sort_def by (rule in_set_takeD)
    then show ?thesis by simp
  qed
  have s: "sorted (map ?f ?ys)" by (rule sorted_sort_key)
  then have sw: "sorted_wrt (\<lambda>x y. y \<le> x) (map (\<lambda>i. row ! i) ?ys)"
    by (simp add: sorted_wrt_map)
  have "sorted_wrt (\<lambda>x y. y \<le> x) (take k (map (\<lambda>i. row ! i) ?ys))"
    using sw by (rule sorted_wrt_take)
  then show "sorted_wrt (\<lambda>x y. y \<le> x) (map (\<lambda>i. row ! i) (topk_by_sort k row))"
    by (simp add: topk_by_sort_def take_map)
  show "row ! j \<le> row ! i"
    if i: "i \<in> set (topk_by_sort k row)" and j: "j < length row" "j \<notin> set (topk_by_sort k row)"
    for i j
  proof -
    have "j \<in> set ?ys" using j(1) by simp
    then have "j \<in> set (take k ?ys) \<union> set (drop k ?ys)"
      by (metis append_take_drop_id set_append)
    with j(2) have jd: "j \<in> set (drop k ?ys)" by (simp add: topk_by_sort_def)
    have "sorted (map ?f (take k ?ys) @ map ?f (drop k ?ys))"
      by (metis append_take_drop_id map_append sorted_sort_key)
    then have "\<forall>x\<in>set (map ?f (take k ?ys)). \<forall>y\<in>set (map ?f (drop k ?ys)). x \<le> y"
      by (simp add: sorted_append)
    with i jd have "?f i \<le> ?f j" by (auto simp: topk_by_sort_def)
    then show ?thesis by simp
  qed
qed

text \<open>
  Under the contract, the first \<open>k\<close> of the \<open>m\<close> indices returned for a row are \<open>k\<close>
  distinct indices of the row, and no score outside them is greater than a score among
  them: they are indices of \<open>k\<close> highest scores.
\<close>

lemma topk_prefix_highest:
  assumes tk: "is_topk tk" and m: "m \<le> length row" and k: "k \<le> m"
  shows "length (take k (tk m row)) = k \<and> distinct (take k (tk m row))
     \<and> (\<forall>i\<in>set (take k (tk m row)). i < length row)
     \<and> (\<forall>i\<in>set (take k (tk m row)). \<forall>j<length row.
           j \<notin> set (take k (tk m row)) \<longrightarrow> row ! j \<le> row ! i)"
proof -
  let ?ys = "tk m row"
  from tk m have len: "length ?ys = m" and d: "distinct ?ys"
    and rng: "\<forall>i\<in>set ?ys. i < length row"
    and sw: "sorted_wrt (\<lambda>x y. y \<le> x) (map (\<lambda>i. row ! i) ?ys)"
    and out: "\<forall>i\<in>set ?ys. \<forall>j<length row. j \<notin> set ?ys \<longrightarrow> row ! j \<le> row ! i"
    unfolding is_topk_def by blast+
  have "sorted_wrt (\<lambda>x y. y \<le> x)
          (map (\<lambda>i. row ! i) (take k ?ys) @ map (\<lambda>i. row ! i) (drop k ?ys))"
    using sw by (metis append_take_drop_id map_append)
  then have td: "\<forall>x\<in>set (take k ?ys). \<forall>y\<in>set (drop k ?ys). row ! y \<le> row ! x"
    by (simp add: sorted_wrt_append)
  have hi: "row ! j \<le> row ! i"
    if i: "i \<in> set (take k ?ys)" and j: "j < length row" "j \<notin> set (take k ?ys)" for i j
  proof (cases "j \<in> set ?ys")
    case True
    then have "j \<in> set (take k ?ys) \<union> set (drop k ?ys)"
      by (metis append_take_drop_id set_append)
    with j(2) have "j \<in> set (drop k ?ys)" by simp
    with td i show ?thesis by blast
  next
    case False
    from i have "i \<in> set ?ys" by (rule in_set_takeD)
    with out j(1) False show ?thesis by blast
  qed
  have "\<forall>i\<in>set (take k ?ys). i < length row"
    using rng by (blast dest: in_set_takeD)
  with len k d hi show ?thesis by (simp add: distinct_take)
qed

lemma filter_disj_length:
  "\<forall>x\<in>set xs. \<not> (P x \<and> Q x) \<Longrightarrow>
   length (filter (\<lambda>x. P x \<or> Q x) xs) = length (filter P xs) + length (filter Q xs)"
  by (induction xs) auto


lemma count_true_take:
  assumes "\<forall>r\<in>set pred0. distinct r \<and> length r = m" "n \<le> m"
  shows "count_true (concat (take n (map (\<lambda>prow. map2 (\<lambda>p t. p = t) prow tgt) (t2d m pred0))))
       = length (filter (\<lambda>(r, t). t \<in> set (take n r)) (zip pred0 tgt))"
  using assms(2)
proof (induction n)
  case 0
  then show ?case by (simp add: count_true_def)
next
  case (Suc n)
  then have n: "n < m" "n \<le> m" by simp_all
  let ?row = "\<lambda>j. map2 (\<lambda>p t. p = t) (map (\<lambda>r. r ! j) pred0) tgt"
  have rows: "map (\<lambda>prow. map2 (\<lambda>p t. p = t) prow tgt) (t2d m pred0) = map ?row [0..<m]"
    by (simp add: t2d_def)
  have tk: "take (Suc n) (map ?row [0..<m]) = take n (map ?row [0..<m]) @ [?row n]"
    using n by (simp add: take_Suc_conv_app_nth)
  have rown: "length (filter (\<lambda>b. b) (?row n)) = length (filter (\<lambda>(r, t). r ! n = t) (zip pred0 tgt))"
    by (simp add: zip_map1 filter_map o_def case_prod_unfold)
  have split: "(t \<in> set (take (Suc n) r)) = (t \<in> set (take n r) \<or> r ! n = t)"
    if "(r, t) \<in> set (zip pred0 tgt)" for r t
  proof -
    from that have "r \<in> set pred0" by (rule set_zip_leftD)
    with assms(1) n have "n < length r" by auto
    then show ?thesis by (auto simp: take_Suc_conv_app_nth)
  qed
  have disj: "\<not> (t \<in> set (take n r) \<and> r ! n = t)" if "(r, t) \<in> set (zip pred0 tgt)" for r t
  proof -
    from that have "r \<in> set pred0" by (rule set_zip_leftD)
    with assms(1) n have l: "n < length r" and d: "distinct r" by auto
    from l have "take (Suc n) r = take n r @ [r ! n]" by (simp add: take_Suc_conv_app_nth)
    moreover from d have "distinct (take (Suc n) r)" by (rule distinct_take)
    ultimately show ?thesis by auto
  qed
  have "length (filter (\<lambda>(r, t). t \<in> set (take (Suc n) r)) (zip pred0 tgt))
      = length (filter (\<lambda>x. (snd x \<in> set (take n (fst x))) \<or> (fst x ! n = snd x)) (zip pred0 tgt))"
    by (rule arg_cong [where f = length], rule filter_cong) (auto simp: split)
  also have "\<dots> = length (filter (\<lambda>x. snd x \<in> set (take n (fst x))) (zip pred0 tgt))
                 + length (filter (\<lambda>x. fst x ! n = snd x) (zip pred0 tgt))"
    by (rule filter_disj_length) (use disj in auto)
  finally have rhs: "length (filter (\<lambda>(r, t). t \<in> set (take (Suc n) r)) (zip pred0 tgt))
      = length (filter (\<lambda>(r, t). t \<in> set (take n r)) (zip pred0 tgt))
        + length (filter (\<lambda>(r, t). r ! n = t) (zip pred0 tgt))"
    by (simp add: case_prod_unfold)
  have "count_true (concat (take (Suc n) (map ?row [0..<m])))
      = count_true (concat (take n (map ?row [0..<m]))) + length (filter (\<lambda>b. b) (?row n))"
    unfolding tk by (simp add: count_true_def)
  with Suc.IH n rows rown rhs show ?case by simp
qed


lemma correct_within_le: "correct_within tk m n output target \<le> length target"
proof -
  have "correct_within tk m n output target \<le> length (zip output target)"
    unfolding correct_within_def by (rule length_filter_le)
  then show ?thesis by simp
qed

lemma accuracy_loop_flat:
  assumes "\<forall>k\<in>set ks. length (slice_to k correct) \<le> 1 \<or> b \<le> 1" and "bs \<noteq> 0"
  shows "accuracy_loop b bs correct ks =
         Inr (map (\<lambda>k. real (count_true (concat (slice_to k correct))) * (100 / real bs)) ks)"
  using assms(1)
proof (induction ks)
  case Nil
  then show ?case by simp
next
  case (Cons k ks)
  from Cons.prems have "length (slice_to k correct) \<le> 1 \<or> b \<le> 1" by auto
  then have v: "view_flat b (slice_to k correct) = Inr (concat (slice_to k correct))"
    by (auto simp: view_flat_def)
  from Cons.prems have "\<forall>k\<in>set ks. length (slice_to k correct) \<le> 1 \<or> b \<le> 1" by auto
  from Cons.IH [OF this] v assms(2) show ?case by simp
qed

lemma accuracy_loop_raises:
  assumes "k \<in> set ks" and "2 \<le> length (slice_to k correct)" and "2 \<le> b" and "bs \<noteq> 0"
  shows "accuracy_loop b bs correct ks = Inl RuntimeError"
  using assms(1)
proof (induction ks)
  case Nil
  then show ?case by simp
next
  case (Cons k' ks)
  show ?case
  proof (cases "view_flat b (slice_to k' correct)")
    case (Inl e)
    then have "e = RuntimeError" by (auto simp: view_flat_def split: if_splits)
    with Inl show ?thesis by simp
  next
    case (Inr flat)
    then have "k' \<noteq> k" using assms(2,3) by (auto simp: view_flat_def)
    with Cons.prems have "k \<in> set ks" by simp
    with Cons.IH Inr assms(4) show ?thesis by simp
  qed
qed

lemma accuracy_correct:
  assumes tk: "is_topk tk"
    and pos: "0 \<le> Max (set topk)"
    and rows: "\<forall>row\<in>set output. Max (set topk) \<le> int (length row)"
    and k: "k \<in> set topk"
  shows "count_true (concat (slice_to k
           (map (\<lambda>prow. map2 (\<lambda>p t. p = t) prow target)
              (t2d (nat (Max (set topk))) (map (tk (nat (Max (set topk)))) output)))))
         = correct_within tk (nat (Max (set topk))) (slice_len k (nat (Max (set topk)))) output target"
    and "length (slice_to k
           (map (\<lambda>prow. map2 (\<lambda>p t. p = t) prow target)
              (t2d (nat (Max (set topk))) (map (tk (nat (Max (set topk)))) output))))
         = slice_len k (nat (Max (set topk)))"
proof -
  let ?M = "nat (Max (set topk))"
  let ?pred0 = "map (tk ?M) output"
  let ?correct = "map (\<lambda>prow. map2 (\<lambda>p t. p = t) prow target) (t2d ?M ?pred0)"
  have wf: "\<forall>r\<in>set ?pred0. distinct r \<and> length r = ?M"
  proof
    fix r assume "r \<in> set ?pred0"
    then obtain row where row: "row \<in> set output" and r: "r = tk ?M row" by auto
    from rows row pos have "?M \<le> length row" by auto
    with tk r show "distinct r \<and> length r = ?M" unfolding is_topk_def by blast
  qed
  have lc: "length ?correct = ?M" by (simp add: t2d_def)
  have kM: "k \<le> Max (set topk)" using k by simp
  then have n: "slice_len k ?M \<le> ?M" by (auto simp: slice_len_def)
  have sl: "slice_to k ?correct = take (slice_len k ?M) ?correct"
    unfolding slice_to_def slice_len_def lc by simp
  then show "length (slice_to k ?correct) = slice_len k ?M"
    using n lc by simp
  have "count_true (concat (slice_to k ?correct))
      = length (filter (\<lambda>(r, t). t \<in> set (take (slice_len k ?M) r)) (zip ?pred0 target))"
    using count_true_take [OF wf n, of target] sl by simp
  also have "\<dots> = correct_within tk ?M (slice_len k ?M) output target"
    by (simp add: correct_within_def zip_map1 filter_map o_def case_prod_unfold)
  finally show "count_true (concat (slice_to k ?correct))
      = correct_within tk ?M (slice_len k ?M) output target" .
qed

text \<open>
  What \<^verbatim>\<open>accuracy\<close> returns when no requested \<open>k\<close> makes line 339 raise, that is when
  every slice keeps at most one row or the batch has one example: for each \<open>k\<close>, 100 times
  the number of examples correct within the rows kept, divided by the batch size.
\<close>

lemma accuracy_value:
  assumes tk: "is_topk tk"
    and len: "length target = length output" and ne: "output \<noteq> []" and nt: "topk \<noteq> []"
    and pos: "0 \<le> Max (set topk)"
    and rows: "\<forall>row\<in>set output. Max (set topk) \<le> int (length row)"
    and flat: "\<forall>k\<in>set topk. slice_len k (nat (Max (set topk))) \<le> 1 \<or> length output \<le> 1"
  shows "accuracy tk output target topk =
         Inr (map (\<lambda>k. real (correct_within tk (nat (Max (set topk)))
                                (slice_len k (nat (Max (set topk)))) output target)
                        * (100 / real (length output))) topk)"
proof -
  let ?M = "nat (Max (set topk))"
  let ?correct = "map (\<lambda>prow. map2 (\<lambda>p t. p = t) prow target) (t2d ?M (map (tk ?M) output))"
  have mx: "py_max topk = Inr (Max (set topk))" using nt by (rule py_max_Inr)
  have tt: "tensor_topk tk (Max (set topk)) output = Inr (map (tk ?M) output)"
    using pos rows by (auto simp: tensor_topk_def)
  have ex: "expand_as target (length output) = Inr target"
    using len by (simp add: expand_as_def)
  have bs: "length target \<noteq> 0" using len ne by simp
  have fl: "\<forall>k\<in>set topk. length (slice_to k ?correct) \<le> 1 \<or> length output \<le> 1"
    using flat accuracy_correct(2) [OF tk pos rows] by simp
  have "accuracy tk output target topk = accuracy_loop (length output) (length target) ?correct topk"
    by (simp add: accuracy_def mx tt ex Let_def)
  also have "\<dots> = Inr (map (\<lambda>k. real (count_true (concat (slice_to k ?correct)))
                          * (100 / real (length target))) topk)"
    using fl bs by (rule accuracy_loop_flat)
  also have "\<dots> = Inr (map (\<lambda>k. real (correct_within tk ?M (slice_len k ?M) output target)
                          * (100 / real (length output))) topk)"
    using accuracy_correct(1) [OF tk pos rows] len by (simp cong: map_cong)
  finally show ?thesis .
qed

text \<open>
  As the program calls it, with \<^verbatim>\<open>topk=(1,)\<close>: 100 times the number of examples whose
  target is the index returned for its row, divided by the batch size.
\<close>

lemma accuracy_top1:
  assumes "is_topk tk" and "length target = length output" and "output \<noteq> []"
    and "\<forall>row\<in>set output. row \<noteq> []"
  shows "accuracy tk output target [1] =
         Inr [100 * real (correct_within tk 1 1 output target) / real (length output)]"
proof -
  have rows: "\<forall>row\<in>set output. Max (set [1]) \<le> int (length row)"
    using assms(4) by (auto simp: Suc_le_eq)
  have "accuracy tk output target [1] =
         Inr (map (\<lambda>k. real (correct_within tk (nat (Max (set [1])))
                                (slice_len k (nat (Max (set [1])))) output target)
                        * (100 / real (length output))) [1])"
    using assms(1,2,3) _ _ rows by (rule accuracy_value) (simp_all add: slice_len_def)
  then show ?thesis by (simp add: slice_len_def)
qed

text \<open>
  A row of two different scores has one highest score, and every function that meets the
  contract returns its index. So the two examples of the specification hold whatever the
  library does with equal scores.
\<close>

lemma is_topk_two:
  assumes "is_topk tk" and "a \<noteq> b"
  shows "tk 1 [a, b] = (if a < b then [1] else [0])"
proof -
  have "(1::nat) \<le> length [a, b]" by simp
  with assms(1) have "length (tk 1 [a, b]) = 1 \<and>
      (\<forall>i\<in>set (tk 1 [a, b]). i < length [a, b]) \<and>
      (\<forall>i\<in>set (tk 1 [a, b]). \<forall>j<length [a, b].
          j \<notin> set (tk 1 [a, b]) \<longrightarrow> [a, b] ! j \<le> [a, b] ! i)"
    unfolding is_topk_def by blast
  then have len: "length (tk 1 [a, b]) = 1"
    and rng: "\<forall>i\<in>set (tk 1 [a, b]). i < 2"
    and out: "\<forall>i\<in>set (tk 1 [a, b]). \<forall>j<2. j \<notin> set (tk 1 [a, b]) \<longrightarrow> [a, b] ! j \<le> [a, b] ! i"
    by (simp_all add: numeral_2_eq_2)
  from len obtain i where i: "tk 1 [a, b] = [i]"
    by (cases "tk 1 [a, b]") auto
  with rng have "i = 0 \<or> i = 1" by auto
  from out i have o: "j < 2 \<Longrightarrow> j \<noteq> i \<Longrightarrow> [a, b] ! j \<le> [a, b] ! i" for j by simp
  from \<open>i = 0 \<or> i = 1\<close> show ?thesis
  proof
    assume i0: "i = 0"
    from o [of 1] i0 have "b \<le> a" by simp
    with assms(2) i i0 show ?thesis by auto
  next
    assume i1: "i = 1"
    from o [of 0] i1 have "a \<le> b" by simp
    with assms(2) i i1 show ?thesis by auto
  qed
qed

lemma accuracy_top1_examples:
  assumes "is_topk tk"
  shows "accuracy tk [[1 / 10, 9 / 10], [8 / 10, 2 / 10]] [1, 0] [1] = Inr [100]"
    and "accuracy tk [[1 / 10, 9 / 10], [8 / 10, 2 / 10]] [0, 1] [1] = Inr [0]"
proof -
  have a: "tk 1 [1 / 10, 9 / 10] = [1]" using is_topk_two [OF assms, of "1 / 10" "9 / 10"] by simp
  have b: "tk 1 [8 / 10, 2 / 10] = [0]" using is_topk_two [OF assms, of "8 / 10" "2 / 10"] by simp
  have "accuracy tk [[1 / 10, 9 / 10], [8 / 10, 2 / 10]] [1, 0] [1] =
         Inr [100 * real (correct_within tk 1 1 [[1 / 10, 9 / 10], [8 / 10, 2 / 10]] [1, 0])
              / real (length [[1 / 10, 9 / 10], [8 / 10, 2 / 10 :: real]])]"
    using assms by (rule accuracy_top1) simp_all
  then show "accuracy tk [[1 / 10, 9 / 10], [8 / 10, 2 / 10]] [1, 0] [1] = Inr [100]"
    using a b by (simp add: correct_within_def)
  have "accuracy tk [[1 / 10, 9 / 10], [8 / 10, 2 / 10]] [0, 1] [1] =
         Inr [100 * real (correct_within tk 1 1 [[1 / 10, 9 / 10], [8 / 10, 2 / 10]] [0, 1])
              / real (length [[1 / 10, 9 / 10], [8 / 10, 2 / 10 :: real]])]"
    using assms by (rule accuracy_top1) simp_all
  then show "accuracy tk [[1 / 10, 9 / 10], [8 / 10, 2 / 10]] [0, 1] [1] = Inr [0]"
    using a b by (simp add: correct_within_def)
qed

text \<open>In the same case the result has one value per requested \<open>k\<close>, each from 0 to 100.\<close>

lemma accuracy_range:
  assumes "is_topk tk"
    and "length target = length output" and "output \<noteq> []" and "topk \<noteq> []"
    and "0 \<le> Max (set topk)"
    and "\<forall>row\<in>set output. Max (set topk) \<le> int (length row)"
    and "\<forall>k\<in>set topk. slice_len k (nat (Max (set topk))) \<le> 1 \<or> length output \<le> 1"
  shows "\<exists>res. accuracy tk output target topk = Inr res \<and> length res = length topk
           \<and> (\<forall>v\<in>set res. 0 \<le> v \<and> v \<le> 100)"
proof -
  let ?f = "\<lambda>k. real (correct_within tk (nat (Max (set topk)))
                        (slice_len k (nat (Max (set topk)))) output target)
                 * (100 / real (length output))"
  have "0 \<le> ?f k \<and> ?f k \<le> 100" for k
  proof -
    have "real (correct_within tk (nat (Max (set topk)))
                 (slice_len k (nat (Max (set topk)))) output target) \<le> real (length output)"
      using correct_within_le [of tk _ _ "output" "target"] assms(2) by simp
    moreover have "0 < real (length output)" using assms(3) by simp
    ultimately show ?thesis by (simp add: field_simps)
  qed
  then show ?thesis
    unfolding accuracy_value [OF assms] by auto
qed

text \<open>
  Whenever a requested \<open>k\<close> is at least 2 and the batch has at least two examples, with
  enough classes in every row, \<^verbatim>\<open>accuracy\<close> raises \<^verbatim>\<open>RuntimeError\<close> at line 339, whatever the
  scores and the targets.
\<close>

lemma accuracy_view_raises:
  assumes tk: "is_topk tk"
    and len: "length target = length output" and two: "2 \<le> length output"
    and rows: "\<forall>row\<in>set output. Max (set topk) \<le> int (length row)"
    and k: "k \<in> set topk" and k2: "2 \<le> k"
  shows "accuracy tk output target topk = Inl RuntimeError"
proof -
  let ?M = "nat (Max (set topk))"
  let ?correct = "map (\<lambda>prow. map2 (\<lambda>p t. p = t) prow target) (t2d ?M (map (tk ?M) output))"
  from k have nt: "topk \<noteq> []" by auto
  have kM: "k \<le> Max (set topk)" using k by simp
  with k2 have pos: "0 \<le> Max (set topk)" by simp
  have mx: "py_max topk = Inr (Max (set topk))" using nt by (rule py_max_Inr)
  have tt: "tensor_topk tk (Max (set topk)) output = Inr (map (tk ?M) output)"
    using pos rows by (auto simp: tensor_topk_def)
  have ex: "expand_as target (length output) = Inr target"
    using len by (simp add: expand_as_def)
  have bs: "length target \<noteq> 0" using len two by auto
  have "length (slice_to k ?correct) = slice_len k ?M"
    using tk pos rows k by (rule accuracy_correct(2))
  also have "\<dots> = nat k" using k2 by (simp add: slice_len_def)
  finally have r2: "2 \<le> length (slice_to k ?correct)" using k2 by simp
  have "accuracy tk output target topk = accuracy_loop (length output) (length target) ?correct topk"
    by (simp add: accuracy_def mx tt ex Let_def)
  also have "\<dots> = Inl RuntimeError"
    using k r2 two bs by (rule accuracy_loop_raises)
  finally show ?thesis .
qed

text \<open>
  Claim C7, at the input where the code departs from it. For the scores
  \<open>[[0.1, 0.9], [0.8, 0.2]]\<close>, the targets \<open>[1, 0]\<close> and the requested \<open>k = 2\<close>, both targets
  are among the two highest scores of their rows and the claim gives 100; \<^verbatim>\<open>accuracy\<close>
  raises \<^verbatim>\<open>RuntimeError\<close> at line 339, whatever indices the library's \<^verbatim>\<open>topk\<close> returns.
\<close>

theorem accuracy_top2_raises:
  "accuracy tk [[1 / 10, 9 / 10], [8 / 10, 2 / 10]] [1, 0] [2] = Inl RuntimeError"
  by (simp add: accuracy_def py_max_def tensor_topk_def expand_as_def t2d_def slice_to_def
      view_flat_def Let_def)

text \<open>
  Claim C10, at the input where the code departs from it. For a batch of two rows of
  three classes and the requested values \<open>(1, 2)\<close>, the claim gives a list of two values;
  \<^verbatim>\<open>accuracy\<close> raises \<^verbatim>\<open>RuntimeError\<close> at line 339 in the second pass of its loop and returns
  no list.
\<close>

theorem accuracy_two_values_raises:
  "accuracy tk [[1 / 10, 9 / 10, 5 / 10], [8 / 10, 2 / 10, 9 / 10]] [2, 0] [1, 2]
     = Inl RuntimeError"
  by (simp add: accuracy_def py_max_def tensor_topk_def expand_as_def t2d_def slice_to_def
      view_flat_def Let_def)

section \<open>The epoch loop\<close>

lemma best_periodic_distinct: "best_path d \<noteq> periodic_path d e"
  by (simp add: best_path_def periodic_path_def os_path_join_def)

lemma best_path_nonempty: "best_path d \<noteq> []"
  by (simp add: best_path_def os_path_join_def)

lemma periodic_path_nonempty: "periodic_path d e \<noteq> []"
  by (simp add: periodic_path_def os_path_join_def)

lemma best_saves_append: "best_saves d (xs @ ys) = best_saves d xs @ best_saves d ys"
  by (simp add: best_saves_def)

lemma periodic_saves_append:
  "periodic_saves d (xs @ ys) = periodic_saves d xs @ periodic_saves d ys"
  by (simp add: periodic_saves_def)

lemma learning_rates_append:
  "learning_rates (xs @ ys) = learning_rates xs @ learning_rates ys"
  by (simp add: learning_rates_def)

lemma epoch_body_total:
  "save_every a \<noteq> 0 \<Longrightarrow> \<exists>s'. epoch_body E a epoch s = Inr s'"
  by (simp add: epoch_body_def Let_def split: prod.split)

lemma epoch_body_fields:
  assumes "epoch_body E a epoch s = Inr s'"
  shows "model s' = train E epoch (pg_lr (optimizer s)) (model s)"
    and "best_prec1 s' = py_max2 (epoch_prec1 E epoch s) (best_prec1 s)"
    and "events s' = events s @ epoch_events E a epoch s"
    and "(lr_scheduler s', optimizer s') = scheduler_step (lr_scheduler s) (optimizer s)"
  using assms
  by (auto simp: epoch_body_def Let_def epoch_prec1_def epoch_ck_def epoch_events_def
      split: prod.splits if_splits)

lemma best_saves_epoch:
  "best_saves (save_dir a) (epoch_events E a epoch s) =
     (if best_prec1 s < epoch_prec1 E epoch s then [epoch_ck E epoch s] else [])"
  using best_periodic_distinct [of "save_dir a" epoch]
  by (auto simp: best_saves_def epoch_events_def)

lemma periodic_saves_epoch:
  "periodic_saves (save_dir a) (epoch_events E a epoch s) =
     (if 0 < epoch \<and> (epoch + 1) mod save_every a = 0 then [epoch_ck E epoch s] else [])"
  using best_periodic_distinct [of "save_dir a" epoch]
  by (auto simp: periodic_saves_def epoch_events_def epoch_ck_def)

lemma run_epochs_total:
  "save_every a \<noteq> 0 \<Longrightarrow> \<exists>s'. run_epochs E a es s = Inr s'"
proof (induction es arbitrary: s)
  case Nil
  then show ?case by simp
next
  case (Cons e es)
  from epoch_body_total [OF Cons.prems] obtain s1 where "epoch_body E a e s = Inr s1" by blast
  with Cons.IH [OF Cons.prems, of s1] show ?case by simp
qed

lemma run_epochs_Cons:
  assumes "run_epochs E a (e # es) s = Inr s'"
  obtains s1 where "epoch_body E a e s = Inr s1" and "run_epochs E a es s1 = Inr s'"
  using assms by (auto split: sum.splits)

lemma run_epochs_events:
  "run_epochs E a es s = Inr s' \<Longrightarrow> \<exists>new. events s' = events s @ new"
proof (induction es arbitrary: s)
  case Nil
  then show ?case by simp
next
  case (Cons e es)
  from Cons.prems obtain s1 where b: "epoch_body E a e s = Inr s1"
    and r: "run_epochs E a es s1 = Inr s'"
    by (rule run_epochs_Cons)
  from Cons.IH [OF r] obtain new where "events s' = events s1 @ new" by blast
  with epoch_body_fields(3) [OF b] show ?case by simp
qed

lemma Max_cons2: "Max (set (b # p # xs)) = Max (set (py_max2 p b # xs))" for b :: real
proof -
  have "Max (insert b (insert p (set xs))) = max b (Max (insert p (set xs)))" by simp
  also have "\<dots> = Max (insert (max p b) (set xs))"
    by (cases "xs = []") (simp_all add: max.assoc max.commute max.left_commute)
  finally show ?thesis by (simp add: py_max2_def max_def)
qed

lemma improving_0: "improving b (p # ms) 0 = (b < p)"
  by (simp add: improving_def)

lemma improving_Suc: "improving b (p # ms) (Suc i) = improving (py_max2 p b) ms i"
  using Max_cons2 [of b p "take i ms"] by (simp add: improving_def)

lemma filter_upt_Suc:
  "filter P [0..<Suc n] = (if P 0 then [0] else []) @ map Suc (filter (\<lambda>i. P (Suc i)) [0..<n])"
proof -
  have "[0..<Suc n] = 0 # map Suc [0..<n]"
    by (simp add: upt_conv_Cons map_Suc_upt del: upt_Suc)
  then show ?thesis by (simp add: filter_map o_def del: upt_Suc)
qed

lemma run_best_saves:
  assumes "run_epochs E a es s = Inr s'"
  shows "length (validation_metrics E a es s) = length es \<and>
     best_prec1 s' = Max (set (best_prec1 s # validation_metrics E a es s)) \<and>
     map (\<lambda>ck. (ck_epoch ck, ck_best_prec1 ck))
         (best_saves (save_dir a) (drop (length (events s)) (events s'))) =
       map (\<lambda>i. (es ! i + 1, validation_metrics E a es s ! i))
         (filter (improving (best_prec1 s) (validation_metrics E a es s)) [0..<length es])"
  using assms
proof (induction es arbitrary: s)
  case Nil
  then show ?case by (simp add: best_saves_def)
next
  case (Cons e es)
  from Cons.prems obtain s1 where b: "epoch_body E a e s = Inr s1"
    and r: "run_epochs E a es s1 = Inr s'"
    by (rule run_epochs_Cons)
  let ?p = "epoch_prec1 E e s"
  let ?ms = "validation_metrics E a es s1"
  from Cons.IH [OF r] have len: "length ?ms = length es"
    and best: "best_prec1 s' = Max (set (best_prec1 s1 # ?ms))"
    and saves: "map (\<lambda>ck. (ck_epoch ck, ck_best_prec1 ck))
         (best_saves (save_dir a) (drop (length (events s1)) (events s'))) =
       map (\<lambda>i. (es ! i + 1, ?ms ! i)) (filter (improving (best_prec1 s1) ?ms) [0..<length es])"
    by blast+
  have ms: "validation_metrics E a (e # es) s = ?p # ?ms"
    using b by (simp add: epoch_prec1_def)
  have b1: "best_prec1 s1 = py_max2 ?p (best_prec1 s)"
    using epoch_body_fields(2) [OF b] .
  have ev1: "events s1 = events s @ epoch_events E a e s"
    using epoch_body_fields(3) [OF b] .
  from run_epochs_events [OF r] obtain new where ev': "events s' = events s1 @ new" by blast
  have new: "drop (length (events s1)) (events s') = new" using ev' by simp
  have drop: "drop (length (events s)) (events s') = epoch_events E a e s @ new"
    using ev' ev1 by simp
  have bestf: "best_prec1 s' = Max (set (best_prec1 s # ?p # ?ms))"
    using best b1 Max_cons2 [of "best_prec1 s" ?p ?ms] by simp
  have first: "map (\<lambda>ck. (ck_epoch ck, ck_best_prec1 ck))
        (best_saves (save_dir a) (epoch_events E a e s))
      = (if best_prec1 s < ?p then [(e + 1, ?p)] else [])"
    by (simp add: best_saves_epoch epoch_ck_def py_max2_def)
  have rest: "map (\<lambda>ck. (ck_epoch ck, ck_best_prec1 ck)) (best_saves (save_dir a) new)
      = map (\<lambda>i. ((e # es) ! i + 1, (?p # ?ms) ! i))
          (map Suc (filter (\<lambda>i. improving (best_prec1 s) (?p # ?ms) (Suc i)) [0..<length es]))"
    using saves new b1 by (simp add: improving_Suc o_def)
  have "map (\<lambda>ck. (ck_epoch ck, ck_best_prec1 ck))
         (best_saves (save_dir a) (drop (length (events s)) (events s'))) =
       map (\<lambda>i. ((e # es) ! i + 1, (?p # ?ms) ! i))
         (filter (improving (best_prec1 s) (?p # ?ms)) [0..<length (e # es)])"
    unfolding drop best_saves_append map_append first rest
    by (simp add: filter_upt_Suc improving_0 del: upt_Suc)
  with ms len bestf show ?case by simp
qed

lemma run_periodic_saves:
  assumes "run_epochs E a es s = Inr s'"
  shows "map ck_epoch (periodic_saves (save_dir a) (drop (length (events s)) (events s'))) =
       map (\<lambda>epoch. epoch + 1) (filter (\<lambda>epoch. 0 < epoch \<and> (epoch + 1) mod save_every a = 0) es)"
  using assms
proof (induction es arbitrary: s)
  case Nil
  then show ?case by (simp add: periodic_saves_def)
next
  case (Cons e es)
  from Cons.prems obtain s1 where b: "epoch_body E a e s = Inr s1"
    and r: "run_epochs E a es s1 = Inr s'"
    by (rule run_epochs_Cons)
  have ev1: "events s1 = events s @ epoch_events E a e s"
    using epoch_body_fields(3) [OF b] .
  from run_epochs_events [OF r] obtain new where ev': "events s' = events s1 @ new" by blast
  have new: "drop (length (events s1)) (events s') = new" using ev' by simp
  have drop: "drop (length (events s)) (events s') = epoch_events E a e s @ new"
    using ev' ev1 by simp
  from Cons.IH [OF r] new
  have "map ck_epoch (periodic_saves (save_dir a) new) =
        map (\<lambda>epoch. epoch + 1) (filter (\<lambda>epoch. 0 < epoch \<and> (epoch + 1) mod save_every a = 0) es)"
    by simp
  then show ?case
    unfolding drop periodic_saves_append map_append
    by (simp add: periodic_saves_epoch epoch_ck_def)
qed

lemma main_fresh:
  assumes "fresh_args a"
  shows "main E a fs = run_epochs E a (py_range 0 (epochs a)) (fresh_state E a fs)"
  using assms
  by (simp add: main_def fresh_args_def fresh_state_def ensure_save_dir_def load_resume_def
      SGD_def MultiStepLR_def scheduler_step_def warm_up_def Let_def)

lemma fresh_state_simps:
  "events (fresh_state E a fs) = []"
  "best_prec1 (fresh_state E a fs) = 0"
  "model (fresh_state E a fs) = new_model E (arch a)"
  by (simp_all add: fresh_state_def)

lemma default_args_fresh: "fresh_args (default_args\<lparr>epochs := n\<rparr>)"
  by (simp add: fresh_args_def default_args_def)

text \<open>
  Claim C1. In every epoch the body compares the validation metric with the best metric
  so far by strict greater-than, keeps the maximum of the two, and writes the best
  checkpoint exactly when the comparison holds. Over a run of the loop from any state and
  over any list of epochs, with \<^verbatim>\<open>save_every\<close> not zero: the run completes; the best metric at
  the end is the maximum of the best metric at the start and all validation metrics, hence
  not smaller than at the start; and the best checkpoints written are, in order, those of
  the epochs whose metric is a strict improvement, each holding the epoch plus one and that
  metric.
\<close>

theorem best_checkpoint_strict_improvement:
  assumes "save_every a \<noteq> 0"
  shows "\<exists>s'. run_epochs E a es s = Inr s' \<and>
     length (validation_metrics E a es s) = length es \<and>
     best_prec1 s' = Max (set (best_prec1 s # validation_metrics E a es s)) \<and>
     best_prec1 s \<le> best_prec1 s' \<and>
     map (\<lambda>ck. (ck_epoch ck, ck_best_prec1 ck))
         (best_saves (save_dir a) (drop (length (events s)) (events s'))) =
       map (\<lambda>i. (es ! i + 1, validation_metrics E a es s ! i))
         (filter (improving (best_prec1 s) (validation_metrics E a es s)) [0..<length es])"
proof -
  from run_epochs_total [OF assms] obtain s' where r: "run_epochs E a es s = Inr s'" by blast
  note b = run_best_saves [OF r]
  from b have "best_prec1 s' = Max (set (best_prec1 s # validation_metrics E a es s))" by blast
  then have "best_prec1 s \<le> best_prec1 s'" by simp
  with r b show ?thesis by blast
qed

theorem best_checkpoint_strict_improvement_witness:
  "map ck_epoch (best_saves ''save_temp''
      (events_of (main (replay [70, 68, 71, 71, 72]) (default_args\<lparr>epochs := 5\<rparr>) Map.empty)))
   = [1, 3, 5]"
proof -
  let ?E = "replay [70, 68, 71, 71, 72]"
  let ?a = "default_args\<lparr>epochs := 5\<rparr>"
  let ?s = "fresh_state ?E ?a Map.empty"
  let ?es = "py_range 0 (epochs ?a)"
  have se: "save_every ?a \<noteq> 0" by (simp add: default_args_def)
  have m: "main ?E ?a Map.empty = run_epochs ?E ?a ?es ?s"
    by (rule main_fresh) (rule default_args_fresh)
  from best_checkpoint_strict_improvement [OF se, of ?E ?es ?s]
  obtain s' where r: "run_epochs ?E ?a ?es ?s = Inr s'"
    and saves: "map (\<lambda>ck. (ck_epoch ck, ck_best_prec1 ck))
         (best_saves (save_dir ?a) (drop (length (events ?s)) (events s'))) =
       map (\<lambda>i. (?es ! i + 1, validation_metrics ?E ?a ?es ?s ! i))
         (filter (improving (best_prec1 ?s) (validation_metrics ?E ?a ?es ?s)) [0..<length ?es])"
    by blast
  have rhs: "map (\<lambda>i. (?es ! i + 1, validation_metrics ?E ?a ?es ?s ! i))
         (filter (improving (best_prec1 ?s) (validation_metrics ?E ?a ?es ?s)) [0..<length ?es])
       = [(1, 70), (3, 71), (5, 72)]"
    by code_simp
  have "map (\<lambda>ck. (ck_epoch ck, ck_best_prec1 ck)) (best_saves ''save_temp'' (events s'))
       = [(1, 70), (3, 71), (5, 72)]"
    using saves rhs by (simp add: fresh_state_simps default_args_def)
  then have "map fst (map (\<lambda>ck. (ck_epoch ck, ck_best_prec1 ck)) (best_saves ''save_temp'' (events s')))
       = [1, 3, 5]"
    by simp
  then have "map ck_epoch (best_saves ''save_temp'' (events s')) = [1, 3, 5]"
    by (simp add: o_def)
  with m r show ?thesis by (simp add: events_of_def)
qed

text \<open>
  Claim C3. Over a run of the loop with \<^verbatim>\<open>save_every\<close> not zero, the periodic checkpoints
  written are, in order, exactly those of the epochs of the loop with \<^verbatim>\<open>epoch > 0\<close> and
  \<^verbatim>\<open>(epoch + 1) % save_every == 0\<close>.
\<close>

theorem periodic_checkpoint_epochs:
  assumes "save_every a \<noteq> 0"
  shows "\<exists>s'. run_epochs E a es s = Inr s' \<and>
     map (\<lambda>ck. ck_epoch ck - 1)
         (periodic_saves (save_dir a) (drop (length (events s)) (events s'))) =
       filter (\<lambda>epoch. 0 < epoch \<and> (epoch + 1) mod save_every a = 0) es"
proof -
  from run_epochs_total [OF assms] obtain s' where r: "run_epochs E a es s = Inr s'" by blast
  have "map (\<lambda>ck. ck_epoch ck - 1) (periodic_saves (save_dir a) (drop (length (events s)) (events s')))
      = map (\<lambda>n. n - 1) (map ck_epoch (periodic_saves (save_dir a) (drop (length (events s)) (events s'))))"
    by (simp add: o_def)
  also have "\<dots> = filter (\<lambda>epoch. 0 < epoch \<and> (epoch + 1) mod save_every a = 0) es"
    unfolding run_periodic_saves [OF r] by (simp add: o_def)
  finally show ?thesis using r by blast
qed

theorem periodic_checkpoint_epochs_witness:
  "map (\<lambda>ck. ck_epoch ck - 1) (periodic_saves ''save_temp''
      (events_of (main (replay []) (default_args\<lparr>epochs := 25\<rparr>) Map.empty)))
   = [9, 19]"
proof -
  let ?E = "replay []"
  let ?a = "default_args\<lparr>epochs := 25\<rparr>"
  let ?s = "fresh_state ?E ?a Map.empty"
  let ?es = "py_range 0 (epochs ?a)"
  have se: "save_every ?a \<noteq> 0" by (simp add: default_args_def)
  have m: "main ?E ?a Map.empty = run_epochs ?E ?a ?es ?s"
    by (rule main_fresh) (rule default_args_fresh)
  from periodic_checkpoint_epochs [OF se, of ?E ?es ?s]
  obtain s' where r: "run_epochs ?E ?a ?es ?s = Inr s'"
    and saves: "map (\<lambda>ck. ck_epoch ck - 1)
         (periodic_saves (save_dir ?a) (drop (length (events ?s)) (events s'))) =
       filter (\<lambda>epoch. 0 < epoch \<and> (epoch + 1) mod save_every ?a = 0) ?es"
    by blast
  have rhs: "filter (\<lambda>epoch. 0 < epoch \<and> (epoch + 1) mod save_every ?a = 0) ?es = [9, 19]"
    by code_simp
  have "map (\<lambda>ck. ck_epoch ck - 1) (periodic_saves ''save_temp'' (events s')) = [9, 19]"
    using saves rhs by (simp add: fresh_state_simps default_args_def)
  with m r show ?thesis by (simp add: events_of_def)
qed

lemma py_range_length: "length (py_range a b) = nat (b - a)"
  by (simp add: py_range_def)

lemma py_range_nth: "i < length (py_range a b) \<Longrightarrow> py_range a b ! i = a + int i"
  by (simp add: py_range_def)

text \<open>
  Claim C9, as amended. A run that starts from scratch enters the loop with the best metric
  0 (line 58). When the loop has an epoch to run and \<^verbatim>\<open>save_every\<close> is not zero, the run
  completes, and a best checkpoint is written in epoch 0 (holding the epoch value 1) if and
  only if the first validation metric is greater than 0.
\<close>

theorem fresh_run_first_best:
  assumes "fresh_args a" and "0 < epochs a" and "save_every a \<noteq> 0"
  shows "\<exists>s'. main E a fs = Inr s' \<and>
     ((\<exists>ck\<in>set (best_saves (save_dir a) (events s')). ck_epoch ck = 1)
        \<longleftrightarrow> 0 < epoch_prec1 E 0 (fresh_state E a fs))"
proof -
  let ?s = "fresh_state E a fs"
  let ?es = "py_range 0 (epochs a)"
  let ?ms = "validation_metrics E a ?es ?s"
  have m: "main E a fs = run_epochs E a ?es ?s" using assms(1) by (rule main_fresh)
  from run_epochs_total [OF assms(3)] obtain s' where r: "run_epochs E a ?es ?s = Inr s'" by blast
  note b = run_best_saves [OF r]
  have len: "0 < length ?es" using assms(2) by (simp add: py_range_length)
  have es0: "?es = 0 # py_range 1 (epochs a)"
    using assms(2) by (simp add: py_range_def upto_rec1)
  have ms0: "?ms ! 0 = epoch_prec1 E 0 ?s"
    unfolding es0 by (simp add: epoch_prec1_def)
  have imp0: "improving (best_prec1 ?s) ?ms 0 = (0 < epoch_prec1 E 0 ?s)"
    using ms0 by (simp add: improving_def fresh_state_simps)
  have "map ck_epoch (best_saves (save_dir a) (events s'))
      = map fst (map (\<lambda>ck. (ck_epoch ck, ck_best_prec1 ck)) (best_saves (save_dir a) (drop (length (events ?s)) (events s'))))"
    by (simp add: o_def fresh_state_simps)
  also have "\<dots> = map (\<lambda>i. ?es ! i + 1) (filter (improving (best_prec1 ?s) ?ms) [0..<length ?es])"
    using b by (simp add: o_def)
  finally have eps: "map ck_epoch (best_saves (save_dir a) (events s'))
      = map (\<lambda>i. ?es ! i + 1) (filter (improving (best_prec1 ?s) ?ms) [0..<length ?es])" .
  have "(\<exists>ck\<in>set (best_saves (save_dir a) (events s')). ck_epoch ck = 1)
      \<longleftrightarrow> 1 \<in> set (map ck_epoch (best_saves (save_dir a) (events s')))"
    by force
  also have "\<dots> \<longleftrightarrow> (\<exists>i<length ?es. improving (best_prec1 ?s) ?ms i \<and> ?es ! i + 1 = 1)"
    unfolding eps by auto
  also have "\<dots> \<longleftrightarrow> improving (best_prec1 ?s) ?ms 0"
    using len by (auto simp: py_range_nth)
  finally show ?thesis using m r imp0 by simp
qed

theorem fresh_run_first_best_witness:
  "\<exists>s'. main (replay [70]) (default_args\<lparr>epochs := 1\<rparr>) Map.empty = Inr s' \<and>
     (\<exists>ck\<in>set (best_saves ''save_temp'' (events s')). ck_epoch ck = 1)"
proof -
  let ?E = "replay [70]"
  let ?a = "default_args\<lparr>epochs := 1\<rparr>"
  have f: "fresh_args ?a" by (rule default_args_fresh)
  have e: "0 < epochs ?a" by simp
  have se: "save_every ?a \<noteq> 0" by (simp add: default_args_def)
  have p: "0 < epoch_prec1 ?E 0 (fresh_state ?E ?a Map.empty)" by code_simp
  from fresh_run_first_best [OF f e se, of ?E Map.empty] p
  show ?thesis by (simp add: default_args_def)
qed

text \<open>
  The claim as stated fails for a first metric of 0.0: the run below completes its one
  epoch, reports the learning rate, and writes no checkpoint.
\<close>

theorem fresh_run_zero_metric_counterexample:
  "events_of (main (replay [0]) (default_args\<lparr>epochs := 1\<rparr>) Map.empty)
     = [Learning_rate (1 / 10) 0]
   \<and> best_saves ''save_temp''
       (events_of (main (replay [0]) (default_args\<lparr>epochs := 1\<rparr>) Map.empty)) = []"
  by code_simp

section \<open>Checkpoints: what is written and what is read back\<close>

lemma load_resume_existing:
  assumes "p \<noteq> []" and "fs p = Some (Checkpoint_file ck)"
  shows "load_resume (a\<lparr>resume := Some p\<rparr>) fs best m =
         Inr (a\<lparr>resume := Some p, start_epoch := ck_epoch ck\<rparr>, ck_best_prec1 ck,
              ck_state_dict ck, [Loading p, Loaded p (ck_epoch ck)])"
  using assms by (simp add: load_resume_def isfile_def torch_load_def)

lemma load_resume_missing:
  assumes "p \<noteq> []" and "\<not> isfile fs p"
  shows "load_resume (a\<lparr>resume := Some p\<rparr>) fs best m =
         Inr (a\<lparr>resume := Some p\<rparr>, best, m, [No_checkpoint p])"
  using assms by (simp add: load_resume_def)

lemma load_resume_unreadable:
  assumes "p \<noteq> []" and "fs p = Some Other_file"
  shows "load_resume (a\<lparr>resume := Some p\<rparr>) fs best m = Inl UnpicklingError"
  using assms by (simp add: load_resume_def isfile_def torch_load_def)

lemma epoch_body_files:
  assumes "epoch_body E a epoch s = Inr s'"
    and "Saved ck p \<in> set (epoch_events E a epoch s)"
  shows "ck = epoch_ck E epoch s \<and> files s' p = Some (Checkpoint_file ck) \<and> p \<noteq> []"
  using assms best_path_nonempty [of "save_dir a"] periodic_path_nonempty [of "save_dir a" epoch]
  by (auto simp: epoch_body_def Let_def epoch_prec1_def epoch_ck_def epoch_events_def torch_save_def
      split: prod.splits if_splits)

text \<open>
  Claim C8. Every checkpoint written in epoch \<open>E\<close> of the loop is the dictionary of the three
  entries epoch, parameters and best metric, with the epoch entry \<open>E + 1\<close> and the
  parameters and best metric of the state after the epoch; the file at the path written
  holds that dictionary; and the resume block, given that path, restores the same epoch
  and best metric (and the parameters) from the file alone, whatever the arguments, best
  metric and model it starts with.
\<close>

theorem checkpoint_round_trip:
  assumes "epoch_body E a epoch s = Inr s'"
    and "Saved ck p \<in> set (drop (length (events s)) (events s'))"
  shows "ck = \<lparr>ck_epoch = epoch + 1, ck_state_dict = model s', ck_best_prec1 = best_prec1 s'\<rparr>
     \<and> files s' p = Some (Checkpoint_file ck)
     \<and> load_resume (b\<lparr>resume := Some p\<rparr>) (files s') best0 m0 =
         Inr (b\<lparr>resume := Some p, start_epoch := epoch + 1\<rparr>, best_prec1 s', model s',
              [Loading p, Loaded p (epoch + 1)])"
proof -
  have ev: "events s' = events s @ epoch_events E a epoch s"
    using epoch_body_fields(3) [OF assms(1)] .
  with assms(2) have mem: "Saved ck p \<in> set (epoch_events E a epoch s)" by simp
  from epoch_body_files [OF assms(1) mem]
  have ck: "ck = epoch_ck E epoch s" and f: "files s' p = Some (Checkpoint_file ck)"
    and p: "p \<noteq> []"
    by blast+
  have ck': "ck = \<lparr>ck_epoch = epoch + 1, ck_state_dict = model s', ck_best_prec1 = best_prec1 s'\<rparr>"
    using ck epoch_body_fields(1,2) [OF assms(1)] by (simp add: epoch_ck_def)
  have "load_resume (b\<lparr>resume := Some p\<rparr>) (files s') best0 m0 =
         Inr (b\<lparr>resume := Some p, start_epoch := ck_epoch ck\<rparr>, ck_best_prec1 ck,
              ck_state_dict ck, [Loading p, Loaded p (ck_epoch ck)])"
    using p f by (rule load_resume_existing)
  with ck' f show ?thesis by simp
qed

theorem checkpoint_round_trip_witness:
  "\<exists>s'. epoch_body (replay [70]) default_args 0 (fresh_state (replay [70]) default_args Map.empty)
          = Inr s'
     \<and> files s' ''save_temp/best_checkpoint.th''
         = Some (Checkpoint_file \<lparr>ck_epoch = 1, ck_state_dict = 1, ck_best_prec1 = 70\<rparr>)
     \<and> load_resume (default_args\<lparr>resume := Some ''save_temp/best_checkpoint.th''\<rparr>) (files s') 0 0
         = Inr (default_args\<lparr>resume := Some ''save_temp/best_checkpoint.th'', start_epoch := 1\<rparr>,
                70, 1,
                [Loading ''save_temp/best_checkpoint.th'', Loaded ''save_temp/best_checkpoint.th'' 1])"
proof -
  let ?E = "replay [70]"
  let ?s = "fresh_state ?E default_args Map.empty"
  let ?p = "''save_temp/best_checkpoint.th''"
  let ?ck = "\<lparr>ck_epoch = 1, ck_state_dict = 1, ck_best_prec1 = 70\<rparr> :: nat checkpoint"
  have se: "save_every default_args \<noteq> 0" by (simp add: default_args_def)
  from epoch_body_total [OF se] obtain s' where b: "epoch_body ?E default_args 0 ?s = Inr s'"
    by blast
  have ev: "epoch_events ?E default_args 0 ?s = [Learning_rate (1 / 10) 0, Saved ?ck ?p]"
    by code_simp
  have "events s' = events ?s @ epoch_events ?E default_args 0 ?s"
    using epoch_body_fields(3) [OF b] .
  then have mem: "Saved ?ck ?p \<in> set (drop (length (events ?s)) (events s'))"
    using ev by simp
  from checkpoint_round_trip [OF b mem, of default_args 0 0]
  have "files s' ?p = Some (Checkpoint_file ?ck)"
    and "model s' = 1" and "best_prec1 s' = 70"
    and "load_resume (default_args\<lparr>resume := Some ?p\<rparr>) (files s') 0 0 =
         Inr (default_args\<lparr>resume := Some ?p, start_epoch := 0 + 1\<rparr>, best_prec1 s', model s',
              [Loading ?p, Loaded ?p (0 + 1)])"
    by simp_all
  with b show ?thesis by simp
qed

section \<open>The learning-rate schedule\<close>

lemma py_range_Cons: "k < n \<Longrightarrow> py_range k n = k # py_range (k + 1) n"
  by (simp add: py_range_def upto_rec1)

lemma py_range_empty: "\<not> k < n \<Longrightarrow> py_range k n = []"
  by (simp add: py_range_def)

lemma scheduler_step_factor:
  assumes "milestones sch = [100, 150]" and "gamma sch = 1 / 10" and "last_epoch sch = k"
    and "pg_lr g = l0 * milestone_factor k"
    and "scheduler_step sch g = (sch', g')"
  shows "milestones sch' = [100, 150] \<and> gamma sch' = 1 / 10 \<and> last_epoch sch' = k + 1
     \<and> pg_lr g' = l0 * milestone_factor (k + 1)"
proof -
  consider "k + 1 = 100" | "k + 1 = 150" | "k + 1 \<noteq> 100 \<and> k + 1 \<noteq> 150" by blast
  then show ?thesis
  proof cases
    case 1
    then have "k = 99" by simp
    with assms show ?thesis
      by (auto simp: scheduler_step_def Let_def milestone_factor_def)
  next
    case 2
    then have "k = 149" by simp
    with assms show ?thesis
      by (auto simp: scheduler_step_def Let_def milestone_factor_def)
  next
    case 3
    then have "milestone_factor (k + 1) = milestone_factor k"
      by (auto simp: milestone_factor_def)
    with 3 assms show ?thesis
      by (auto simp: scheduler_step_def Let_def)
  qed
qed

lemma learning_rates_epoch:
  "learning_rates (epoch_events E a epoch s) = [(epoch, pg_lr (optimizer s))]"
  by (auto simp: learning_rates_def epoch_events_def)

lemma run_learning_rates:
  assumes "run_epochs E a (py_range k n) s = Inr s'"
    and "milestones (lr_scheduler s) = [100, 150]" and "gamma (lr_scheduler s) = 1 / 10"
    and "last_epoch (lr_scheduler s) = k"
    and "pg_lr (optimizer s) = l0 * milestone_factor k"
  shows "learning_rates (drop (length (events s)) (events s')) =
         map (\<lambda>e. (e, l0 * milestone_factor e)) (py_range k n)"
  using assms
proof (induction "nat (n - k)" arbitrary: k s)
  case 0
  then have "py_range k n = []" by (simp add: py_range_empty)
  with "0.prems"(1) show ?case by (simp add: learning_rates_def)
next
  case (Suc d)
  then have kn: "k < n" by simp
  then have pr: "py_range k n = k # py_range (k + 1) n" by (rule py_range_Cons)
  from Suc.prems(1) obtain s1 where b: "epoch_body E a k s = Inr s1"
    and r: "run_epochs E a (py_range (k + 1) n) s1 = Inr s'"
    unfolding pr by (rule run_epochs_Cons)
  have st: "scheduler_step (lr_scheduler s) (optimizer s) = (lr_scheduler s1, optimizer s1)"
    using epoch_body_fields(4) [OF b] by simp
  note inv = scheduler_step_factor [OF Suc.prems(2,3,4,5) st]
  have d: "d = nat (n - (k + 1))" using Suc.hyps(2) by simp
  from inv have i1: "milestones (lr_scheduler s1) = [100, 150]"
    and i2: "gamma (lr_scheduler s1) = 1 / 10"
    and i3: "last_epoch (lr_scheduler s1) = k + 1"
    and i4: "pg_lr (optimizer s1) = l0 * milestone_factor (k + 1)"
    by blast+
  note ih = Suc.hyps(1) [OF d r i1 i2 i3 i4]
  have ev1: "events s1 = events s @ epoch_events E a k s"
    using epoch_body_fields(3) [OF b] .
  from run_epochs_events [OF r] obtain new where ev': "events s' = events s1 @ new" by blast
  have new: "drop (length (events s1)) (events s') = new" using ev' by simp
  have drop: "drop (length (events s)) (events s') = epoch_events E a k s @ new"
    using ev' ev1 by simp
  show ?case
    unfolding drop learning_rates_append learning_rates_epoch pr
    using ih new Suc.prems(5) by simp
qed

text \<open>
  The rates of a run from scratch: the rate the optimizer holds when the loop is entered
  (the configured rate, or a tenth of it under the warm-up override), times the factor of
  the epoch. Without the override this is the trajectory of the specification. With the
  override the tenth stays for the whole run, since \<open>scheduler_step\<close> computes from the
  rate the optimizer holds and never returns to the configured rate.
\<close>

lemma fresh_learning_rates:
  assumes "fresh_args a" and "main E a fs = Inr s'"
  shows "learning_rates (events s') =
         map (\<lambda>e. (e, (if arch a \<in> set [''resnet1202'', ''resnet110''] then lr a * (1 / 10) else lr a)
                       * milestone_factor e))
             (py_range 0 (epochs a))"
proof -
  let ?s = "fresh_state E a fs"
  have r: "run_epochs E a (py_range 0 (epochs a)) ?s = Inr s'"
    using assms main_fresh [OF assms(1), of E fs] by simp
  have "learning_rates (drop (length (events ?s)) (events s')) =
         map (\<lambda>e. (e, pg_lr (optimizer ?s) * milestone_factor e)) (py_range 0 (epochs a))"
    using r by (rule run_learning_rates) (simp_all add: fresh_state_def milestone_factor_def)
  then show ?thesis
    by (simp add: fresh_state_def warm_up_def)
qed

lemma MultiStepLR_resume_raises:
  assumes "SGD l m w = Inr g" and "le \<noteq> - 1"
  shows "MultiStepLR g ms le = Inl KeyError"
  using assms by (auto simp: SGD_def MultiStepLR_def split: if_splits)

lemma main_returns_from_epoch_0:
  assumes "main E a fs = Inr s" and "resume a = None"
  shows "start_epoch a = 0"
proof (rule ccontr)
  assume "start_epoch a \<noteq> 0"
  then have "start_epoch a - 1 \<noteq> - 1" by simp
  then have "\<And>g l m w. SGD l m w = Inr g \<Longrightarrow> MultiStepLR g [100, 150] (start_epoch a - 1) = Inl KeyError"
    by (rule MultiStepLR_resume_raises [rotated])
  with assms show False
    by (auto simp: main_def load_resume_def split: sum.splits)
qed

text \<open>
  Claim C4, at the input where the code departs from it. Constructing the scheduler for a
  run that starts at epoch 120 raises \<^verbatim>\<open>KeyError\<close>: \<^verbatim>\<open>last_epoch\<close> is 119, not -1, and the new
  optimizer's parameter group has no \<^verbatim>\<open>initial_lr\<close>. The run ends there, before any epoch.
\<close>

theorem schedule_resume_at_120_raises:
  "MultiStepLR \<lparr>pg_lr = 1 / 10, pg_initial_lr = None\<rparr> [100, 150] (120 - 1) = Inl KeyError
   \<and> main (replay []) (default_args\<lparr>start_epoch := 120\<rparr>) Map.empty = Inl KeyError"
  by (simp add: main_def ensure_save_dir_def exists_path_def load_resume_def default_args_def
      SGD_def MultiStepLR_def replay_def)

text \<open>
  Claim C2, at the input where the code departs from it. With a resume path that names a
  checkpoint file written after epoch 4 (epoch entry 5, best metric 80), the resume block
  restores the three values, and the construction of the scheduler then raises
  \<^verbatim>\<open>KeyError\<close>: no epoch is executed.
\<close>

theorem resume_from_checkpoint_raises:
  "load_resume (default_args\<lparr>resume := Some ''save_temp/best_checkpoint.th''\<rparr>)
      (Map.empty(''save_temp/best_checkpoint.th'' \<mapsto>
         Checkpoint_file \<lparr>ck_epoch = 5, ck_state_dict = 5, ck_best_prec1 = 80\<rparr>)) 0 (0 :: nat)
     = Inr (default_args\<lparr>resume := Some ''save_temp/best_checkpoint.th'', start_epoch := 5\<rparr>,
            80, 5,
            [Loading ''save_temp/best_checkpoint.th'', Loaded ''save_temp/best_checkpoint.th'' 5])
   \<and> main (replay []) (default_args\<lparr>resume := Some ''save_temp/best_checkpoint.th''\<rparr>)
       (Map.empty(''save_temp/best_checkpoint.th'' \<mapsto>
         Checkpoint_file \<lparr>ck_epoch = 5, ck_state_dict = 5, ck_best_prec1 = 80\<rparr>))
     = Inl KeyError"
  by (simp add: load_resume_def isfile_def torch_load_def main_def ensure_save_dir_def
      exists_path_def default_args_def SGD_def MultiStepLR_def replay_def)

text \<open>
  Claim C5, at the input where the code departs from it. For \<^verbatim>\<open>resnet110\<close> with the
  configured rate 0.1, the rate reported in epochs 1 and 2 is still 0.01, the warm-up rate
  of epoch 0, not 0.1.
\<close>

theorem warm_up_rate_persists:
  "learning_rates (events_of
     (main (replay []) (default_args\<lparr>arch := ''resnet110'', epochs := 3\<rparr>) Map.empty))
   = [(0, 1 / 100), (1, 1 / 100), (2, 1 / 100)]"
  by code_simp

text \<open>
  A resume path that names no file: the message of line 88 is printed and the run enters
  the loop exactly as a run from scratch does. An empty resume path counts as none and
  prints nothing.
\<close>

lemma ensure_save_dir_isfile:
  assumes "ensure_save_dir fs d = Inr fs'" and "\<not> isfile fs p"
  shows "\<not> isfile fs' p"
  using assms
  by (auto simp: ensure_save_dir_def isfile_def exists_path_def split: if_splits option.splits)

lemma main_resume_missing:
  assumes "fresh_args (a\<lparr>resume := None\<rparr>)" and "resume a = Some p" and "p \<noteq> []"
    and "\<not> isfile fs p"
  shows "main E a fs =
         run_epochs E a (py_range 0 (epochs a))
           ((fresh_state E a fs)\<lparr>events := [No_checkpoint p]\<rparr>)"
proof -
  from assms(1) have d: "save_dir a \<noteq> []" by (simp add: fresh_args_def)
  then obtain fs' where e: "ensure_save_dir fs (save_dir a) = Inr fs'"
    and fs': "fs' = (if exists_path fs (save_dir a) then fs else fs(save_dir a \<mapsto> Directory))"
    by (simp add: ensure_save_dir_def)
  from ensure_save_dir_isfile [OF e assms(4)] have nf: "\<not> isfile fs' p" .
  have l: "load_resume a fs' 0 m0 = Inr (a, 0, m0, [No_checkpoint p])" for m0 :: 'a
    using assms(2,3) nf by (simp add: load_resume_def)
  have "main E a fs =
         run_epochs E a (py_range 0 (epochs a))
           \<lparr>model = new_model E (arch a), best_prec1 = 0,
            optimizer = warm_up a \<lparr>pg_lr = lr a, pg_initial_lr = Some (lr a)\<rparr>,
            lr_scheduler = \<lparr>milestones = [100, 150], gamma = 1 / 10, base_lr = lr a, last_epoch = 0\<rparr>,
            files = fs', events = [No_checkpoint p]\<rparr>"
    using assms(1)
    by (simp add: main_def e l fresh_args_def SGD_def MultiStepLR_def scheduler_step_def Let_def)
  then show ?thesis
    unfolding fs' by (simp add: fresh_state_def)
qed

lemma main_resume_empty_path:
  assumes "fresh_args (a\<lparr>resume := None\<rparr>)" and "resume a = Some []"
  shows "main E a fs = run_epochs E a (py_range 0 (epochs a)) (fresh_state E a fs)"
  using assms
  by (simp add: main_def fresh_args_def fresh_state_def ensure_save_dir_def load_resume_def
      SGD_def MultiStepLR_def scheduler_step_def warm_up_def Let_def)

text \<open>
  A resume path that names a checkpoint file whose epoch entry is not 0: \<^verbatim>\<open>main\<close> raises,
  whatever the other arguments.
\<close>

lemma main_resumed_raises:
  assumes "resume a = Some p" and "p \<noteq> []" and "fs p = Some (Checkpoint_file ck)"
    and "ck_epoch ck \<noteq> 0"
  shows "main E a fs \<noteq> Inr s"
proof
  assume m: "main E a fs = Inr s"
  then obtain fs' where e: "ensure_save_dir fs (save_dir a) = Inr fs'"
    by (auto simp: main_def split: sum.splits)
  have "fs' p = Some (Checkpoint_file ck)"
    using e assms(3) by (auto simp: ensure_save_dir_def exists_path_def split: if_splits)
  then have l: "load_resume a fs' 0 (new_model E (arch a)) =
           Inr (a\<lparr>start_epoch := ck_epoch ck\<rparr>, ck_best_prec1 ck, ck_state_dict ck,
                [Loading p, Loaded p (ck_epoch ck)])"
    using assms(1,2) by (simp add: load_resume_def isfile_def torch_load_def)
  have le: "ck_epoch ck - 1 \<noteq> - 1" using assms(4) by simp
  have "\<And>g l m w. SGD l m w = Inr g \<Longrightarrow> MultiStepLR g [100, 150] (ck_epoch ck - 1) = Inl KeyError"
    using le by (rule MultiStepLR_resume_raises [rotated])
  with m e l show False
    by (auto simp: main_def split: sum.splits)
qed

end
